theory Spec2Isabelle
  imports Main "HOL-Library.AList" "HOL-Library.Sublist"
begin

section \<open>The Telegram sender of satori: data model\<close>

text \<open>
  The development embeds \<^verbatim>\<open>adapters/telegram/src/sender.ts\<close>.
  A JavaScript value that the sender stores in its payload dictionary is either
  \<^verbatim>\<open>undefined\<close> or a string; an exception is a value of \<open>js_error\<close>, and a
  function that may throw returns \<open>js_error + 'a\<close>.
\<close>

datatype jsval = Undefined | Str string

datatype js_error =
    TypeError string
  | ApiError string
  | AggregateError "js_error list"

text \<open>\<^verbatim>\<open>type AssetType = 'photo' | 'audio' | 'document' | 'video' | 'animation'\<close>\<close>

datatype AssetType = Photo | Audio | Document | Video | Animation

fun asset_key :: "AssetType \<Rightarrow> string" where
  "asset_key Photo = ''photo''"
| "asset_key Audio = ''audio''"
| "asset_key Document = ''document''"
| "asset_key Video = ''video''"
| "asset_key Animation = ''animation''"

fun assetApi :: "AssetType \<Rightarrow> string" where
  "assetApi Photo = ''sendPhoto''"
| "assetApi Audio = ''sendAudio''"
| "assetApi Document = ''sendDocument''"
| "assetApi Video = ''sendVideo''"
| "assetApi Animation = ''sendAnimation''"

text \<open>
  The content appended to the form: a read stream on a local path
  (\<^verbatim>\<open>createReadStream\<close>) or a buffer of decoded bytes (\<^verbatim>\<open>Buffer.from\<close>).
\<close>

datatype content = ReadStream string | Buffer string

text \<open>
  A node of the element tree: \<^verbatim>\<open>{ type, attrs, children }\<close>. Attribute values are
  strings; an absent attribute reads as \<^verbatim>\<open>undefined\<close>.
\<close>

datatype segment =
  Segment (seg_type: string) (seg_attrs: "string \<rightharpoonup> string") (seg_children: "segment list")

text \<open>
  One call handed to the bot: an asset call carries the name of the operation, the form
  fields in the order they were appended and the appended file (field, content,
  filename), if any; a text call is \<^verbatim>\<open>sendMessage\<close> with its four arguments.
\<close>

datatype call =
    AssetCall (call_api: string) (call_fields: "(string \<times> string) list")
      (call_file: "(string \<times> content \<times> string option) option")
  | TextCall (call_chat: string) (call_text: jsval) (call_parse_mode: jsval)
      (call_reply_to: jsval)

datatype message = Message (message_id: nat)

text \<open>
  What the sender imports and does not define: the URL parser (\<open>None\<close> when
  \<^verbatim>\<open>new URL\<close> throws), \<^verbatim>\<open>fileURLToPath\<close> (\<open>None\<close> when it throws), the base64
  decoder of \<^verbatim>\<open>Buffer.from\<close>, the sniffer \<^verbatim>\<open>fromBuffer\<close> of file-type (the
  extension, \<open>None\<close> when it cannot tell), the bot's internal API (given the calls made so
  far and the call, a message or a rejection) and \<^verbatim>\<open>segment.parse\<close>.
\<close>

record env =
  url_protocol :: "string \<Rightarrow> string option"
  fileURLToPath :: "string \<Rightarrow> string option"
  from_base64 :: "string \<Rightarrow> string"
  fromBuffer :: "string \<Rightarrow> string option"
  api :: "call list \<Rightarrow> call \<Rightarrow> js_error + message"
  parse :: "string \<Rightarrow> segment list"

text \<open>
  The fields of \<^verbatim>\<open>class Sender\<close>; the payload is a dictionary whose keys keep their
  insertion order. \<open>calls\<close> logs the calls made through the bot and \<open>warnings\<close> what was
  written to the logger.
\<close>

record sender =
  errors :: "js_error list"
  results :: "message list"
  assetType :: "AssetType option"
  payload :: "(string \<times> jsval) list"
  chat_id :: string
  calls :: "call list"
  warnings :: "string list"

section \<open>JavaScript primitives\<close>

definition truthy :: "jsval \<Rightarrow> bool" where
  "truthy v = (case v of Undefined \<Rightarrow> False | Str s \<Rightarrow> s \<noteq> [])"

text \<open>String conversion in a concatenation or template.\<close>

definition to_str :: "jsval \<Rightarrow> string" where
  "to_str v = (case v of Undefined \<Rightarrow> ''undefined'' | Str s \<Rightarrow> s)"

text \<open>\<^verbatim>\<open>v.toString()\<close> throws on \<^verbatim>\<open>undefined\<close>.\<close>

definition toString :: "jsval \<Rightarrow> js_error + string" where
  "toString v = (case v of
      Undefined \<Rightarrow> Inl (TypeError ''Cannot read properties of undefined (reading toString)'')
    | Str s \<Rightarrow> Inr s)"

definition pget :: "(string \<times> jsval) list \<Rightarrow> string \<Rightarrow> jsval" where
  "pget p k = (case map_of p k of None \<Rightarrow> Undefined | Some v \<Rightarrow> v)"

definition attr :: "(string \<rightharpoonup> string) \<Rightarrow> string \<Rightarrow> jsval" where
  "attr a k = (case a k of None \<Rightarrow> Undefined | Some v \<Rightarrow> Str v)"

definition upper_case :: string where
  "upper_case = ''ABCDEFGHIJKLMNOPQRSTUVWXYZ''"

definition lower_case :: string where
  "lower_case = ''abcdefghijklmnopqrstuvwxyz''"

definition lower_char :: "char \<Rightarrow> char" where
  "lower_char c = (case map_of (zip upper_case lower_case) c of None \<Rightarrow> c | Some d \<Rightarrow> d)"

definition toLowerCase :: "string \<Rightarrow> string" where
  "toLowerCase s = map lower_char s"

definition endsWith :: "string \<Rightarrow> string \<Rightarrow> bool" where
  "endsWith s suf = prefix (rev suf) (rev s)"

text \<open>The first occurrence of a separator: the text before it and the text after it.\<close>

fun split_first :: "string \<Rightarrow> string \<Rightarrow> (string \<times> string) option" where
  "split_first sep [] = None"
| "split_first sep (c # cs) =
     (if prefix sep (c # cs) then Some ([], drop (length sep) (c # cs))
      else (case split_first sep cs of
              None \<Rightarrow> None
            | Some (a, b) \<Rightarrow> Some (c # a, b)))"

lemma split_first_shorter:
  "split_first sep s = Some (a, b) \<Longrightarrow> sep \<noteq> [] \<Longrightarrow> length b < length s"
proof (induction s arbitrary: a b)
  case Nil
  then show ?case by simp
next
  case (Cons c cs)
  show ?case
  proof (cases "prefix sep (c # cs)")
    case True
    with Cons.prems show ?thesis by auto
  next
    case False
    with Cons.prems obtain a' where "split_first sep cs = Some (a', b)"
      by (auto split: option.splits)
    with Cons.IH Cons.prems(2) have "length b < length cs" by blast
    then show ?thesis by simp
  qed
qed

text \<open>\<^verbatim>\<open>s.split(sep)\<close>; an empty separator splits into the characters.\<close>

function js_split :: "string \<Rightarrow> string \<Rightarrow> string list" where
  "js_split sep s =
     (if sep = [] then map (\<lambda>c. [c]) s
      else (case split_first sep s of
              None \<Rightarrow> [s]
            | Some (a, b) \<Rightarrow> a # js_split sep b))"
  by pat_completeness auto
termination
  by (relation "measure (\<lambda>(sep, s). length s)") (auto dest: split_first_shorter)

declare js_split.simps [simp del]

text \<open>\<^verbatim>\<open>xs[i]\<close>: \<^verbatim>\<open>undefined\<close> out of range.\<close>

definition at_index :: "'a list \<Rightarrow> nat \<Rightarrow> 'a option" where
  "at_index xs i = (if i < length xs then Some (xs ! i) else None)"

section \<open>Resolving an attachment reference\<close>

text \<open>
  \<^verbatim>\<open>maybeFile(payload, field)\<close> returns the triple, the payload after its
  \<^verbatim>\<open>delete\<close> and the warnings it logged. \<open>resolve_content\<close> is the
  \<^verbatim>\<open>if (protocol === ...)\<close> chain.
\<close>

definition resolve_content ::
  "env \<Rightarrow> (string \<times> jsval) list \<Rightarrow> string \<Rightarrow> string \<Rightarrow> string
     \<Rightarrow> js_error + (content option \<times> (string \<times> jsval) list)" where
  "resolve_content E p key ref protocol =
     (if protocol = ''file:'' then
        (case fileURLToPath E ref of
           None \<Rightarrow> Inl (TypeError ''The URL must be a local file path'')
         | Some path \<Rightarrow> Inr (Some (ReadStream path), AList.delete key p))
      else if protocol = ''base64:'' then
        (case at_index (js_split ''://'' ref) 1 of
           None \<Rightarrow> Inl (TypeError ''The first argument must be of type string'')
         | Some data \<Rightarrow> Inr (Some (Buffer (from_base64 E data)), AList.delete key p))
      else if protocol = ''data:'' then
        (case at_index (js_split ''base64,'' ref) 1 of
           None \<Rightarrow> Inl (TypeError ''The first argument must be of type string'')
         | Some data \<Rightarrow> Inr (Some (Buffer (from_base64 E data)), AList.delete key p))
      else Inr (None, p))"

definition sniff :: "env \<Rightarrow> content option \<Rightarrow> string option" where
  "sniff E c = (case c of Some (Buffer b) \<Rightarrow> fromBuffer E b | _ \<Rightarrow> None)"

definition maybeFile ::
  "env \<Rightarrow> (string \<times> jsval) list \<Rightarrow> AssetType
     \<Rightarrow> js_error + ((AssetType option \<times> content option \<times> string option)
                       \<times> (string \<times> jsval) list \<times> string list)" where
  "maybeFile E p field =
     (if \<not> truthy (pget p (asset_key field)) then Inr ((None, None, None), p, [])
      else
        let ref = to_str (pget p (asset_key field)) in
        (case url_protocol E ref of
           None \<Rightarrow> Inl (TypeError ''Invalid URL'')
         | Some protocol \<Rightarrow>
            (case resolve_content E p (asset_key field) ref protocol of
               Inl e \<Rightarrow> Inl e
             | Inr (content, p') \<Rightarrow>
                 if field = Document \<and> (protocol = ''base64:'' \<or> protocol = ''data:'') then
                   (case sniff E content of
                      None \<Rightarrow>
                        Inr ((Some field, content, Some ''file''), p',
                             [''Can not infer file mime''])
                    | Some ext \<Rightarrow>
                        Inr ((Some field, content, Some (''file.'' @ ext)), p', []))
                 else Inr ((Some field, content, Some ''file''), p', []))))"

text \<open>\<^verbatim>\<open>isGif(url)\<close>: the answer and the warnings it logged.\<close>

definition gif_data :: "string \<Rightarrow> string \<Rightarrow> string option" where
  "gif_data protocol url =
     (if protocol = ''base64:'' then at_index (js_split ''://'' url) 1
      else if protocol = ''data:'' then at_index (js_split ''base64,'' url) 1
      else None)"

definition isGif :: "env \<Rightarrow> jsval \<Rightarrow> js_error + (bool \<times> string list)" where
  "isGif E v =
     (case v of
        Undefined \<Rightarrow>
          Inl (TypeError ''Cannot read properties of undefined (reading toLowerCase)'')
      | Str url \<Rightarrow>
          if endsWith (toLowerCase url) ''.gif'' then Inr (True, [])
          else
            (case url_protocol E url of
               None \<Rightarrow> Inl (TypeError ''Invalid URL'')
             | Some protocol \<Rightarrow>
                 (case gif_data protocol url of
                    None \<Rightarrow> Inr (False, [])
                  | Some data \<Rightarrow>
                      if data = [] then Inr (False, [])
                      else
                        (case fromBuffer E (from_base64 E data) of
                           None \<Rightarrow> Inr (False, [''Can not infer file mime''])
                         | Some ext \<Rightarrow> Inr (ext = ''gif'', [])))))"

section \<open>The sender\<close>

text \<open>The constructor: \<^verbatim>\<open>this.payload = { chat_id, caption: '' }\<close>.\<close>

definition new_sender :: "string \<Rightarrow> sender" where
  "new_sender c =
     \<lparr> errors = [], results = [], assetType = None,
       payload = [(''chat_id'', Str c), (''caption'', Str '''')],
       chat_id = c, calls = [], warnings = [] \<rparr>"

text \<open>The loop \<^verbatim>\<open>for (const key in this.payload) payload.append(key, this.payload[key].toString())\<close>.\<close>

fun form_fields :: "(string \<times> jsval) list \<Rightarrow> js_error + (string \<times> string) list" where
  "form_fields [] = Inr []"
| "form_fields ((k, v) # kvs) =
     (case toString v of
        Inl e \<Rightarrow> Inl e
      | Inr s \<Rightarrow> (case form_fields kvs of Inl e \<Rightarrow> Inl e | Inr fs \<Rightarrow> Inr ((k, s) # fs)))"

definition form_file ::
  "AssetType option \<Rightarrow> content option \<Rightarrow> string option
     \<Rightarrow> (string \<times> content \<times> string option) option" where
  "form_file field content filename =
     (case field of
        None \<Rightarrow> None
      | Some f \<Rightarrow> (case content of None \<Rightarrow> None | Some c \<Rightarrow> Some (asset_key f, c, filename)))"

definition sendAsset :: "env \<Rightarrow> sender \<Rightarrow> js_error + sender" where
  "sendAsset E s =
     (case assetType s of
        None \<Rightarrow>
          (case form_fields (payload s) of
             Inl e \<Rightarrow> Inl e
           | Inr fs \<Rightarrow> Inl (TypeError ''this.bot.internal[undefined] is not a function''))
      | Some a \<Rightarrow>
          (case maybeFile E (payload s) a of
             Inl e \<Rightarrow> Inl e
           | Inr ((field, content, filename), p, w) \<Rightarrow>
               (case form_fields p of
                  Inl e \<Rightarrow> Inl e
                | Inr fs \<Rightarrow>
                    let c = AssetCall (assetApi a) fs (form_file field content filename) in
                    (case api E (calls s) c of
                       Inl e \<Rightarrow> Inl e
                     | Inr m \<Rightarrow>
                         Inr (s\<lparr> results := results s @ [m],
                                 calls := calls s @ [c],
                                 warnings := warnings s @ w,
                                 assetType := None,
                                 payload :=
                                   AList.update ''caption'' (Str '''')
                                     (AList.delete ''reply_to_message''
                                       (AList.delete (asset_key a) p)) \<rparr>)))))"

definition sendBuffer :: "env \<Rightarrow> sender \<Rightarrow> js_error + sender" where
  "sendBuffer E s =
     (if assetType s \<noteq> None then sendAsset E s
      else if truthy (pget (payload s) ''caption'') then
        let c = TextCall (chat_id s) (pget (payload s) ''caption'')
                  (pget (payload s) ''parse_mode'') (pget (payload s) ''reply_to_message_id'') in
        (case api E (calls s) c of
           Inl e \<Rightarrow> Inl e
         | Inr m \<Rightarrow>
             Inr (s\<lparr> results := results s @ [m],
                     calls := calls s @ [c],
                     payload :=
                       AList.update ''caption'' (Str '''')
                         (AList.delete ''reply_to_message'' (payload s)) \<rparr>))
      else Inr s)"

text \<open>\<^verbatim>\<open>this.payload.caption += x\<close> and \<^verbatim>\<open>this.payload[k] = v\<close>.\<close>

definition add_caption :: "string \<Rightarrow> sender \<Rightarrow> sender" where
  "add_caption x s =
     s\<lparr> payload :=
          AList.update ''caption'' (Str (to_str (pget (payload s) ''caption'') @ x)) (payload s) \<rparr>"

definition pset :: "string \<Rightarrow> jsval \<Rightarrow> sender \<Rightarrow> sender" where
  "pset k v s = s\<lparr> payload := AList.update k v (payload s) \<rparr>"

text \<open>\<^verbatim>\<open>a || b\<close> on attribute values.\<close>

definition js_or :: "jsval \<Rightarrow> jsval \<Rightarrow> jsval" where
  "js_or a b = (if truthy a then a else b)"

text \<open>The asset type an image, audio, video or file node selects.\<close>

definition select_asset ::
  "env \<Rightarrow> string \<Rightarrow> jsval \<Rightarrow> js_error + (AssetType \<times> string list)" where
  "select_asset E ty url =
     (if ty = ''image'' then
        (case isGif E url of
           Inl e \<Rightarrow> Inl e
         | Inr (g, w) \<Rightarrow> Inr (if g then Animation else Photo, w))
      else if ty = ''file'' then Inr (Document, [])
      else if ty = ''audio'' then Inr (Audio, [])
      else Inr (Video, []))"

text \<open>
  \<^verbatim>\<open>render(elements)\<close> is \<open>render\<close>, the body of its loop is \<open>render_node\<close>;
  \<^verbatim>\<open>sendMessage(children)\<close> is written out in the branch of a message node.
\<close>

fun render :: "env \<Rightarrow> segment list \<Rightarrow> sender \<Rightarrow> js_error + sender"
  and render_node :: "env \<Rightarrow> segment \<Rightarrow> sender \<Rightarrow> js_error + sender" where
  "render E [] s = Inr s"
| "render E (x # xs) s =
     (case render_node E x s of Inl e \<Rightarrow> Inl e | Inr s' \<Rightarrow> render E xs s')"
| "render_node E (Segment ty a ch) s =
     (if ty = ''text'' then Inr (add_caption (to_str (attr a ''content'')) s)
      else if ty = ''at'' then
        (let atTarget = js_or (js_or (js_or (attr a ''name'') (attr a ''id'')) (attr a ''role''))
                          (attr a ''type'') in
         if truthy atTarget then Inr (add_caption (''@'' @ to_str atTarget @ '' '') s)
         else Inr s)
      else if ty = ''sharp'' then
        (let sharpTarget = js_or (attr a ''name'') (attr a ''id'') in
         if truthy sharpTarget then Inr (add_caption (''#'' @ to_str sharpTarget @ '' '') s)
         else Inr s)
      else if ty \<in> set [''image'', ''audio'', ''video'', ''file''] then
        (case sendBuffer E s of
           Inl e \<Rightarrow> Inl e
         | Inr s1 \<Rightarrow>
             (case select_asset E ty (attr a ''url'') of
                Inl e \<Rightarrow> Inl e
              | Inr (t, w) \<Rightarrow>
                  Inr (pset (asset_key t) (attr a ''url'')
                        (s1\<lparr> assetType := Some t, warnings := warnings s1 @ w \<rparr>))))
      else if ty = ''quote'' then
        (case sendBuffer E s of
           Inl e \<Rightarrow> Inl e
         | Inr s1 \<Rightarrow> Inr (pset ''reply_to_message_id'' (attr a ''id'') s1))
      else if ty = ''message'' then
        (case sendBuffer E s of
           Inl e \<Rightarrow> Inl e
         | Inr s1 \<Rightarrow>
             if a ''quote'' \<noteq> None then Inr (pset ''reply_to_message_id'' (attr a ''id'') s1)
             else (case render E ch s1 of Inl e \<Rightarrow> Inl e | Inr s2 \<Rightarrow> sendBuffer E s2))
      else if ty = ''markdown'' then
        (case sendBuffer E s of
           Inl e \<Rightarrow> Inl e
         | Inr s1 \<Rightarrow> Inr (pset ''parse_mode'' (Str ''MarkdownV2'') s1))
      else if ty = ''html'' then
        (case sendBuffer E s of
           Inl e \<Rightarrow> Inl e
         | Inr s1 \<Rightarrow> Inr (pset ''parse_mode'' (Str ''html'') s1))
      else render E ch s)"

definition sendMessage :: "env \<Rightarrow> segment list \<Rightarrow> sender \<Rightarrow> js_error + sender" where
  "sendMessage E elements s =
     (case render E elements s of Inl e \<Rightarrow> Inl e | Inr s' \<Rightarrow> sendBuffer E s')"

definition send :: "env \<Rightarrow> string \<Rightarrow> sender \<Rightarrow> js_error + message list" where
  "send E content s =
     (case sendMessage E (parse E content) s of
        Inl e \<Rightarrow> Inl e
      | Inr s' \<Rightarrow> if errors s' = [] then Inr (results s') else Inl (AggregateError (errors s')))"

section \<open>Notions used by the properties\<close>

text \<open>The first attribute value that is present and not empty.\<close>

fun first_nonempty :: "string option list \<Rightarrow> string option" where
  "first_nonempty [] = None"
| "first_nonempty (None # xs) = first_nonempty xs"
| "first_nonempty (Some [] # xs) = first_nonempty xs"
| "first_nonempty (Some (c # cs) # xs) = Some (c # cs)"

text \<open>The text a mention appends: the value, when it is truthy.\<close>

definition target_of :: "jsval \<Rightarrow> string option" where
  "target_of v = (if truthy v then Some (to_str v) else None)"

text \<open>
  The attachment slots of the payload that are occupied, and the invariant that ties them
  to \<^verbatim>\<open>this.assetType\<close>: no slot without an asset type, and with one exactly its own.
\<close>

definition asset_keys :: "string list" where
  "asset_keys = map asset_key [Photo, Audio, Document, Video, Animation]"

definition occ :: "(string \<times> jsval) list \<Rightarrow> string list" where
  "occ p = filter (\<lambda>k. k \<in> set asset_keys) (map fst p)"

definition occupied :: "sender \<Rightarrow> string list" where
  "occupied s = occ (payload s)"

definition slot_inv :: "sender \<Rightarrow> bool" where
  "slot_inv s =
     (occupied s = (case assetType s of None \<Rightarrow> [] | Some t \<Rightarrow> [asset_key t]))"

text \<open>The text up to the first occurrence of a separator, all of it when there is none.\<close>

definition up_to :: "string \<Rightarrow> string \<Rightarrow> string" where
  "up_to sep d = (case split_first sep d of None \<Rightarrow> d | Some (a, b) \<Rightarrow> a)"

text \<open>The node types whose branch of \<^verbatim>\<open>render\<close> starts with \<^verbatim>\<open>sendBuffer\<close>.\<close>

definition flushing :: "string list" where
  "flushing =
     [''image'', ''audio'', ''video'', ''file'', ''quote'', ''message'', ''markdown'', ''html'']"

section \<open>A concrete environment for examples\<close>

text \<open>
  Doubles of the imported functions, used to run the sender on concrete inputs. The
  protocol of a reference is its scheme in lower case with the colon, for a text that
  starts with a letter and has only scheme characters before its first colon. The
  decoder is a table of base64 texts and the sniffer knows the magic numbers of three
  formats.
\<close>

definition scheme_chars :: string where
  "scheme_chars = upper_case @ lower_case @ ''0123456789+-.''"

definition scheme_protocol :: "string \<Rightarrow> string option" where
  "scheme_protocol s =
     (let scheme = takeWhile (\<lambda>c. c \<noteq> CHR '':'') s in
      if scheme \<noteq> [] \<and> length scheme < length s
         \<and> hd scheme \<in> set (upper_case @ lower_case)
         \<and> list_all (\<lambda>c. c \<in> set scheme_chars) scheme
      then Some (toLowerCase scheme @ '':'')
      else None)"

definition local_path :: "string \<Rightarrow> string option" where
  "local_path s = (if prefix ''file://'' s then Some (drop 7 s) else None)"

definition table_base64 :: "string \<Rightarrow> string" where
  "table_base64 s =
     (if s = ''R0lGODlh'' then ''GIF89a''
      else if s = ''iVBORw0KGgo='' then
        [CHR 0x89, CHR ''P'', CHR ''N'', CHR ''G'', CHR 0x0D, CHR 0x0A, CHR 0x1A, CHR 0x0A]
      else if s = ''JVBERi0='' then ''%PDF-''
      else if s = ''aGk='' then ''hi''
      else if s = ''QUJD'' then ''ABC''
      else [])"

definition magic_sniff :: "string \<Rightarrow> string option" where
  "magic_sniff b =
     (if prefix ''GIF8'' b then Some ''gif''
      else if prefix [CHR 0x89, CHR ''P'', CHR ''N'', CHR ''G''] b then Some ''png''
      else if prefix ''%PDF'' b then Some ''pdf''
      else None)"

definition accept_api :: "call list \<Rightarrow> call \<Rightarrow> js_error + message" where
  "accept_api made c = Inr (Message (length made))"

definition demo_env :: env where
  "demo_env =
     \<lparr> url_protocol = scheme_protocol, fileURLToPath = local_path,
       from_base64 = table_base64, fromBuffer = magic_sniff,
       api = accept_api, parse = (\<lambda>content. [Segment ''text'' [''content'' \<mapsto> content] []]) \<rparr>"

text \<open>Element lists for the examples.\<close>

definition two_images :: "segment list" where
  "two_images =
     [Segment ''image'' [''url'' \<mapsto> ''https://x/y.png''] [],
      Segment ''text'' [''content'' \<mapsto> ''hi''] [],
      Segment ''image'' [''url'' \<mapsto> ''https://x/y2.png''] []]"

definition gif_image :: segment where
  "gif_image = Segment ''image'' [''url'' \<mapsto> ''base64://R0lGODlh''] []"

text \<open>A sender whose photo slot holds a data reference that has no base64 marker.\<close>

definition data_pending :: sender where
  "data_pending =
     pset ''photo'' (Str ''data:text/plain,hi'') ((new_sender ''7'')\<lparr> assetType := Some Photo \<rparr>)"

text \<open>A payload with one occupied slot.\<close>

definition slot_payload :: "string \<Rightarrow> string \<Rightarrow> (string \<times> jsval) list" where
  "slot_payload k ref = [(''chat_id'', Str ''7''), (''caption'', Str []), (k, Str ref)]"

text \<open>
  More element lists and senders for the examples, and an API that rejects the first call
  it is given.
\<close>

definition markdown_photo :: "segment list" where
  "markdown_photo =
     [Segment ''markdown'' Map.empty [],
      Segment ''image'' [''url'' \<mapsto> ''https://x/y.png''] []]"

definition quoted_text_photo :: "segment list" where
  "quoted_text_photo =
     [Segment ''quote'' [''id'' \<mapsto> ''7''] [],
      Segment ''text'' [''content'' \<mapsto> ''a''] [],
      Segment ''image'' [''url'' \<mapsto> ''https://x/y.png''] [],
      Segment ''text'' [''content'' \<mapsto> ''b''] []]"

definition reject_first :: "call list \<Rightarrow> call \<Rightarrow> js_error + message" where
  "reject_first made c =
     (if made = [] then Inl (ApiError ''Bad Request'') else Inr (Message (length made)))"

definition text_then_photo :: "segment list" where
  "text_then_photo =
     [Segment ''text'' [''content'' \<mapsto> ''a''] [],
      Segment ''image'' [''url'' \<mapsto> ''https://x/y.png''] []]"

text \<open>A sender with a caption and a remote photo pending.\<close>

definition photo_pending :: sender where
  "photo_pending =
     pset ''photo'' (Str ''https://x/y.png'')
       ((add_caption ''hi'' (new_sender ''7''))\<lparr> assetType := Some Photo \<rparr>)"

definition markdown_photo_pending :: sender where
  "markdown_photo_pending =
     pset ''photo'' (Str ''https://x/y.png'')
       ((pset ''parse_mode'' (Str ''MarkdownV2'') (new_sender ''7''))\<lparr> assetType := Some Photo \<rparr>)"

definition html_text_pending :: sender where
  "html_text_pending = add_caption ''hi'' (pset ''parse_mode'' (Str ''html'') (new_sender ''7''))"

section \<open>The branches of render\<close>

lemma ty_cases:
  obtains (cap) "ty \<in> {''text'', ''at'', ''sharp''}"
      | (media) "ty \<in> {''image'', ''audio'', ''video'', ''file''}"
      | (reply) "ty = ''quote''" | (msg) "ty = ''message''"
      | (mode) "ty \<in> {''markdown'', ''html''}"
      | (other) "ty \<notin> {''text'', ''at'', ''sharp'', ''image'', ''audio'', ''video'', ''file'',
           ''quote'', ''message'', ''markdown'', ''html''}"
  by (cases "ty \<in> {''text'', ''at'', ''sharp'', ''image'', ''audio'', ''video'', ''file'',
           ''quote'', ''message'', ''markdown'', ''html''}") (simp_all only: insert_iff empty_iff, metis+)


lemma render_node_text:
  "render_node E (Segment ''text'' a ch) s = Inr (add_caption (to_str (attr a ''content'')) s)"
  by simp

lemma render_node_at:
  "render_node E (Segment ''at'' a ch) s =
     Inr (case target_of (js_or (js_or (js_or (attr a ''name'') (attr a ''id''))
                 (attr a ''role'')) (attr a ''type'')) of
            None \<Rightarrow> s
          | Some t \<Rightarrow> add_caption (''@'' @ t @ '' '') s)"
  by (simp add: target_of_def Let_def)

lemma render_node_sharp:
  "render_node E (Segment ''sharp'' a ch) s =
     Inr (case target_of (js_or (attr a ''name'') (attr a ''id'')) of
            None \<Rightarrow> s
          | Some t \<Rightarrow> add_caption (''#'' @ t @ '' '') s)"
  by (simp add: target_of_def Let_def)

lemma render_node_media:
  "ty \<in> {''image'', ''audio'', ''video'', ''file''} \<Longrightarrow>
   render_node E (Segment ty a ch) s =
     (case sendBuffer E s of
        Inl e \<Rightarrow> Inl e
      | Inr s1 \<Rightarrow>
          (case select_asset E ty (attr a ''url'') of
             Inl e \<Rightarrow> Inl e
           | Inr (t, w) \<Rightarrow>
               Inr (pset (asset_key t) (attr a ''url'')
                     (s1\<lparr> assetType := Some t, warnings := warnings s1 @ w \<rparr>))))"
  by (elim insertE emptyE; hypsubst; simp)

lemma render_node_quote:
  "render_node E (Segment ''quote'' a ch) s =
     (case sendBuffer E s of
        Inl e \<Rightarrow> Inl e
      | Inr s1 \<Rightarrow> Inr (pset ''reply_to_message_id'' (attr a ''id'') s1))"
  by simp

lemma render_node_message:
  "render_node E (Segment ''message'' a ch) s =
     (case sendBuffer E s of
        Inl e \<Rightarrow> Inl e
      | Inr s1 \<Rightarrow>
          if a ''quote'' \<noteq> None then Inr (pset ''reply_to_message_id'' (attr a ''id'') s1)
          else (case render E ch s1 of Inl e \<Rightarrow> Inl e | Inr s2 \<Rightarrow> sendBuffer E s2))"
  by simp

lemma render_node_mode:
  "ty \<in> {''markdown'', ''html''} \<Longrightarrow>
   render_node E (Segment ty a ch) s =
     (case sendBuffer E s of
        Inl e \<Rightarrow> Inl e
      | Inr s1 \<Rightarrow>
          Inr (pset ''parse_mode'' (Str (if ty = ''markdown'' then ''MarkdownV2'' else ''html'')) s1))"
  by (elim insertE emptyE; hypsubst; simp)

lemma render_node_other:
  "ty \<notin> {''text'', ''at'', ''sharp'', ''image'', ''audio'', ''video'', ''file'',
           ''quote'', ''message'', ''markdown'', ''html''} \<Longrightarrow>
   render_node E (Segment ty a ch) s = render E ch s"
  by simp

declare render_node.simps [simp del]

section \<open>Mentions and hashtags\<close>

lemma first_nonempty_Cons:
  "first_nonempty (x # xs) = (if x = None \<or> x = Some [] then first_nonempty xs else x)"
  by (cases "x # xs" rule: first_nonempty.cases) auto

lemma target_of_attr: "target_of (attr a k) = first_nonempty [a k]"
  by (cases "a k") (auto simp: target_of_def attr_def truthy_def to_str_def first_nonempty_Cons)

lemma target_of_js_or:
  "target_of (js_or v (attr a k)) =
     (case target_of v of None \<Rightarrow> first_nonempty [a k] | Some t \<Rightarrow> Some t)"
  using target_of_attr [of a k] by (auto simp: js_or_def target_of_def)

lemma at_target:
  "target_of (js_or (js_or (js_or (attr a ''name'') (attr a ''id'')) (attr a ''role''))
     (attr a ''type'')) = first_nonempty [a ''name'', a ''id'', a ''role'', a ''type'']"
  by (simp add: target_of_js_or target_of_attr first_nonempty_Cons split: option.splits)

lemma sharp_target:
  "target_of (js_or (attr a ''name'') (attr a ''id'')) = first_nonempty [a ''name'', a ''id'']"
  by (simp add: target_of_js_or target_of_attr first_nonempty_Cons split: option.splits)

text \<open>
  C7. An at node appends \<open>@target\<close> and a space to the caption, where the target is the
  first of the attributes name, id, role and type that is present and not empty; a sharp
  node appends \<open>#target\<close> and a space, with the first of name and id. When no such
  attribute exists the sender is returned as it was. In both cases the only field of the
  sender that changes is the caption entry of the payload: no flush takes place, no call
  is made and no attachment slot is touched.
\<close>

theorem at_sharp_append_to_caption:
  "render_node E (Segment ''at'' a ch) s =
     Inr (case first_nonempty [a ''name'', a ''id'', a ''role'', a ''type''] of
            None \<Rightarrow> s
          | Some t \<Rightarrow>
              s\<lparr> payload :=
                   AList.update ''caption''
                     (Str (to_str (pget (payload s) ''caption'') @ ''@'' @ t @ '' ''))
                     (payload s) \<rparr>)
   \<and> render_node E (Segment ''sharp'' a ch) s =
     Inr (case first_nonempty [a ''name'', a ''id''] of
            None \<Rightarrow> s
          | Some t \<Rightarrow>
              s\<lparr> payload :=
                   AList.update ''caption''
                     (Str (to_str (pget (payload s) ''caption'') @ ''#'' @ t @ '' ''))
                     (payload s) \<rparr>)"
proof -
  let ?at = "js_or (js_or (js_or (attr a ''name'') (attr a ''id'')) (attr a ''role''))
     (attr a ''type'')"
  let ?sharp = "js_or (attr a ''name'') (attr a ''id'')"
  have at: "render_node E (Segment ''at'' a ch) s =
      Inr (case target_of ?at of None \<Rightarrow> s | Some t \<Rightarrow> add_caption (''@'' @ t @ '' '') s)"
    by (rule render_node_at)
  have sharp: "render_node E (Segment ''sharp'' a ch) s =
      Inr (case target_of ?sharp of None \<Rightarrow> s | Some t \<Rightarrow> add_caption (''#'' @ t @ '' '') s)"
    by (rule render_node_sharp)
  show ?thesis
    unfolding at sharp at_target sharp_target
    by (simp add: add_caption_def split: option.splits)
qed

section \<open>What a flush does\<close>

lemma resolve_content_payload:
  "resolve_content E p k ref pr = Inr (c, p') \<Longrightarrow> p' = p \<or> p' = AList.delete k p"
  by (auto simp: resolve_content_def split: if_splits option.splits)

lemma maybeFile_payload:
  "maybeFile E p f = Inr (t, p', w) \<Longrightarrow> p' = p \<or> p' = AList.delete (asset_key f) p"
  by (auto simp: maybeFile_def Let_def split: if_splits option.splits sum.splits
           dest: resolve_content_payload)

lemma sendAsset_Inr:
  assumes "sendAsset E s = Inr s'"
  obtains a t p w fs m where
    "assetType s = Some a" "maybeFile E (payload s) a = Inr (t, p, w)"
    "form_fields p = Inr fs"
    "api E (calls s) (AssetCall (assetApi a) fs (form_file (fst t) (fst (snd t)) (snd (snd t)))) = Inr m"
    "s' = s\<lparr> results := results s @ [m],
             calls := calls s @ [AssetCall (assetApi a) fs (form_file (fst t) (fst (snd t)) (snd (snd t)))],
             warnings := warnings s @ w,
             assetType := None,
             payload := AList.update ''caption'' (Str '''')
                          (AList.delete ''reply_to_message'' (AList.delete (asset_key a) p)) \<rparr>"
  using assms
  by (auto simp: sendAsset_def Let_def split: option.splits sum.splits prod.splits)

lemma sendBuffer_cases:
  assumes "sendBuffer E s = Inr s'"
  obtains (by_asset) "assetType s \<noteq> None" "sendAsset E s = Inr s'"
  | (by_text) m where "assetType s = None" "truthy (pget (payload s) ''caption'')"
      "api E (calls s) (TextCall (chat_id s) (pget (payload s) ''caption'')
          (pget (payload s) ''parse_mode'') (pget (payload s) ''reply_to_message_id'')) = Inr m"
      "s' = s\<lparr> results := results s @ [m],
               calls := calls s @ [TextCall (chat_id s) (pget (payload s) ''caption'')
          (pget (payload s) ''parse_mode'') (pget (payload s) ''reply_to_message_id'')],
               payload := AList.update ''caption'' (Str '''')
                         (AList.delete ''reply_to_message'' (payload s)) \<rparr>"
  | (idle) "assetType s = None" "\<not> truthy (pget (payload s) ''caption'')" "s' = s"
  using assms
  by (auto simp: sendBuffer_def Let_def split: if_splits sum.splits)

lemma occupied_occ: "occupied s = occ (payload s)"
  by (simp add: occupied_def)

lemma occ_update_other: "k \<notin> set asset_keys \<Longrightarrow> occ (AList.update k v p) = occ p"
  by (simp add: occ_def update_keys)

lemma occ_update_asset:
  "k \<in> set asset_keys \<Longrightarrow> occ p = [] \<Longrightarrow> occ (AList.update k v p) = [k]"
  by (auto simp: occ_def update_keys filter_empty_conv)

lemma occ_delete: "occ (AList.delete k p) = removeAll k (occ p)"
  by (simp add: occ_def delete_keys removeAll_filter_not_eq filter_filter conj_commute)

lemma asset_key_in: "asset_key t \<in> set asset_keys"
  by (cases t) (simp_all add: asset_keys_def)

lemma not_asset_keys:
  "''caption'' \<notin> set asset_keys" "''reply_to_message'' \<notin> set asset_keys"
  "''reply_to_message_id'' \<notin> set asset_keys" "''parse_mode'' \<notin> set asset_keys"
  by (simp_all add: asset_keys_def)

lemma sendAsset_clears:
  assumes "slot_inv s" "sendAsset E s = Inr s'"
  shows "occupied s' = [] \<and> assetType s' = None"
proof -
  from assms(2) obtain a t p w fs m where
    a: "assetType s = Some a" and mf: "maybeFile E (payload s) a = Inr (t, p, w)"
    and s': "payload s' = AList.update ''caption'' (Str '''')
                          (AList.delete ''reply_to_message'' (AList.delete (asset_key a) p))"
       "assetType s' = None"
    by (elim sendAsset_Inr) simp
  from assms(1) a have o: "occ (payload s) = [asset_key a]"
    by (simp add: slot_inv_def occupied_occ)
  from maybeFile_payload [OF mf] have "removeAll (asset_key a) (occ p) = []"
    using o by (auto simp: occ_delete)
  then show ?thesis
    using s' by (simp add: occupied_occ occ_update_other not_asset_keys occ_delete)
qed

lemma sendBuffer_clears:
  assumes "slot_inv s" "sendBuffer E s = Inr s'"
  shows "occupied s' = [] \<and> assetType s' = None"
  using assms(2)
proof (cases rule: sendBuffer_cases)
  case by_asset
  with assms(1) show ?thesis by (simp add: sendAsset_clears)
next
  case (by_text m)
  with assms(1) show ?thesis
    by (simp add: slot_inv_def occupied_occ occ_update_other not_asset_keys occ_delete)
next
  case idle
  with assms(1) show ?thesis by (simp add: slot_inv_def)
qed

lemma clear_slot_inv: "occupied s = [] \<and> assetType s = None \<Longrightarrow> slot_inv s"
  by (simp add: slot_inv_def)

lemma slot_inv_add_caption: "slot_inv s \<Longrightarrow> slot_inv (add_caption x s)"
  by (simp add: slot_inv_def occupied_occ add_caption_def occ_update_other not_asset_keys)

lemma slot_inv_pset: "k \<notin> set asset_keys \<Longrightarrow> slot_inv s \<Longrightarrow> slot_inv (pset k v s)"
  by (simp add: slot_inv_def occupied_occ pset_def occ_update_other)

lemma slot_inv_occupy:
  "occupied s = [] \<Longrightarrow>
   slot_inv (pset (asset_key t) v (s\<lparr> assetType := Some t, warnings := w \<rparr>))"
  by (simp add: slot_inv_def occupied_occ pset_def occ_update_asset asset_key_in)

section \<open>The attachment slot\<close>


lemma render_slot_inv:
  "(\<forall>s'. slot_inv s \<longrightarrow> render E xs s = Inr s' \<longrightarrow> slot_inv s')"
  "(\<forall>s'. slot_inv s \<longrightarrow> render_node E x s = Inr s' \<longrightarrow> slot_inv s')"
proof (induction E xs s and E x s rule: render_render_node.induct)
  case (1 E s)
  then show ?case by simp
next
  case (2 E x xs s)
  show ?case
  proof (intro allI impI)
    fix s' assume inv: "slot_inv s" and r: "render E (x # xs) s = Inr s'"
    from r obtain s1 where x: "render_node E x s = Inr s1" and xs: "render E xs s1 = Inr s'"
      by (simp split: sum.splits)
    from "2.IH"(1) inv x have "slot_inv s1" by blast
    with "2.IH"(2) [OF x] xs show "slot_inv s'" by blast
  qed
next
  case (3 E ty a ch s)
  show ?case
  proof (intro allI impI)
    fix s' assume inv: "slot_inv s" and r: "render_node E (Segment ty a ch) s = Inr s'"
    show "slot_inv s'"
    proof (cases ty rule: ty_cases)
      case cap
      with inv r show ?thesis
        by (elim insertE emptyE; hypsubst)
           (auto simp: render_node_text render_node_at render_node_sharp slot_inv_add_caption
                 split: option.splits)
    next
      case media
      with r obtain s1 t w where f: "sendBuffer E s = Inr s1"
        and s': "s' = pset (asset_key t) (attr a ''url'') (s1\<lparr> assetType := Some t, warnings := warnings s1 @ w \<rparr>)"
        by (auto simp: render_node_media split: sum.splits)
      from sendBuffer_clears [OF inv f] show ?thesis
        unfolding s' by (intro slot_inv_occupy) simp
    next
      case reply
      with r obtain s1 where f: "sendBuffer E s = Inr s1"
        and s': "s' = pset ''reply_to_message_id'' (attr a ''id'') s1"
        by (auto simp: render_node_quote split: sum.splits)
      from sendBuffer_clears [OF inv f] show ?thesis
        unfolding s' by (intro slot_inv_pset clear_slot_inv not_asset_keys)
    next
      case msg
      with r obtain s1 where f: "sendBuffer E s = Inr s1"
        and s': "(a ''quote'' \<noteq> None \<and> s' = pset ''reply_to_message_id'' (attr a ''id'') s1)
           \<or> (a ''quote'' = None \<and> (\<exists>s2. render E ch s1 = Inr s2 \<and> sendBuffer E s2 = Inr s'))"
        by (auto simp: render_node_message split: sum.splits if_splits)
      have inv1: "slot_inv s1" using sendBuffer_clears [OF inv f] by (rule clear_slot_inv)
      from s' show ?thesis
      proof (elim disjE conjE exE)
        assume "s' = pset ''reply_to_message_id'' (attr a ''id'') s1"
        with inv1 show ?thesis by (simp add: slot_inv_pset not_asset_keys)
      next
        fix s2 assume q: "a ''quote'' = None" and r2: "render E ch s1 = Inr s2"
          and f2: "sendBuffer E s2 = Inr s'"
        from "3.IH"(1) [of s1] msg f q inv1 r2 have "slot_inv s2" by simp
        from sendBuffer_clears [OF this f2] show ?thesis by (rule clear_slot_inv)
      qed
    next
      case mode
      with r obtain s1 m where f: "sendBuffer E s = Inr s1"
        and s': "s' = pset ''parse_mode'' m s1"
        by (auto simp: render_node_mode split: sum.splits)
      from sendBuffer_clears [OF inv f] show ?thesis
        unfolding s' by (intro slot_inv_pset clear_slot_inv not_asset_keys)
    next
      case other
      with r have "render E ch s = Inr s'" by (simp add: render_node_other)
      with "3.IH"(2) other inv show ?thesis by simp
    qed
  qed
qed

lemma slot_inv_new: "slot_inv (new_sender c)"
  by (simp add: slot_inv_def occupied_def occ_def new_sender_def asset_keys_def)

lemma slot_inv_length: "slot_inv s \<Longrightarrow> length (occupied s) \<le> 1"
  by (simp add: slot_inv_def split: option.splits)

lemma select_asset_image:
  "select_asset E ''image'' u =
     (case isGif E u of
        Inl e \<Rightarrow> Inl e
      | Inr (g, w) \<Rightarrow> Inr (if g then Animation else Photo, w))"
  by (simp add: select_asset_def)

lemma select_asset_others:
  "select_asset E ''file'' u = Inr (Document, [])"
  "select_asset E ''audio'' u = Inr (Audio, [])"
  "select_asset E ''video'' u = Inr (Video, [])"
  by (simp_all add: select_asset_def)

text \<open>
  C9. At most one attachment slot of the payload is occupied at any time. The invariant
  \<open>slot_inv\<close> says that the occupied slots are exactly the one named by the asset type,
  and none when there is no asset type. It holds for a new sender and is kept by every
  node, by every list of nodes and by a whole message; a flush that returns leaves no slot
  occupied; and an image, audio, video or file node flushes first, so that the slot it
  occupies is the only one.
\<close>

theorem one_slot_at_most:
  "slot_inv (new_sender c)
   \<and> (slot_inv s \<longrightarrow> length (occupied s) \<le> 1)
   \<and> (slot_inv s \<longrightarrow> sendBuffer E s = Inr s1 \<longrightarrow> occupied s1 = [] \<and> assetType s1 = None)
   \<and> (slot_inv s \<longrightarrow> ty \<in> {''image'', ''audio'', ''video'', ''file''} \<longrightarrow>
        render_node E (Segment ty a ch) s = Inr s2 \<longrightarrow>
        (\<exists>s0 t. sendBuffer E s = Inr s0 \<and> occupied s0 = []
                \<and> occupied s2 = [asset_key t] \<and> assetType s2 = Some t))
   \<and> (slot_inv s \<longrightarrow> render_node E x s = Inr s3 \<longrightarrow> slot_inv s3)
   \<and> (slot_inv s \<longrightarrow> render E xs s = Inr s4 \<longrightarrow> slot_inv s4)
   \<and> (slot_inv s \<longrightarrow> sendMessage E xs s = Inr s5 \<longrightarrow> occupied s5 = [] \<and> assetType s5 = None)"
proof (intro conjI impI)
  show "slot_inv (new_sender c)" by (rule slot_inv_new)
next
  assume "slot_inv s" then show "length (occupied s) \<le> 1" by (rule slot_inv_length)
next
  assume "slot_inv s" "sendBuffer E s = Inr s1"
  then show "occupied s1 = []" "assetType s1 = None" by (simp_all add: sendBuffer_clears)
next
  assume inv: "slot_inv s" and ty: "ty \<in> {''image'', ''audio'', ''video'', ''file''}"
    and r: "render_node E (Segment ty a ch) s = Inr s2"
  from r obtain s0 t w where f: "sendBuffer E s = Inr s0"
    and s2: "s2 = pset (asset_key t) (attr a ''url'')
                    (s0\<lparr> assetType := Some t, warnings := warnings s0 @ w \<rparr>)"
    by (auto simp: render_node_media [OF ty] split: sum.splits)
  from sendBuffer_clears [OF inv f] have o: "occupied s0 = []" by simp
  then have "occupied s2 = [asset_key t]" "assetType s2 = Some t"
    unfolding s2 by (simp_all add: occupied_occ pset_def occ_update_asset asset_key_in)
  with f o show "\<exists>s0 t. sendBuffer E s = Inr s0 \<and> occupied s0 = []
                \<and> occupied s2 = [asset_key t] \<and> assetType s2 = Some t" by blast
next
  assume "slot_inv s" "render_node E x s = Inr s3"
  with render_slot_inv(2) show "slot_inv s3" by blast
next
  assume "slot_inv s" "render E xs s = Inr s4"
  with render_slot_inv(1) show "slot_inv s4" by blast
next
  assume inv: "slot_inv s" and m: "sendMessage E xs s = Inr s5"
  from m obtain s' where r: "render E xs s = Inr s'" and f: "sendBuffer E s' = Inr s5"
    by (auto simp: sendMessage_def split: sum.splits)
  from render_slot_inv(1) inv r have "slot_inv s'" by blast
  from sendBuffer_clears [OF this f] show "occupied s5 = []" "assetType s5 = None" by simp_all
qed

theorem one_slot_at_most_witness:
  "slot_inv (new_sender ''7'')
   \<and> (\<exists>s2 s1 s4 s5.
        render_node demo_env (hd two_images) (new_sender ''7'') = Inr s2
        \<and> slot_inv s2 \<and> length (occupied s2) \<le> 1 \<and> occupied s2 \<noteq> []
        \<and> sendBuffer demo_env s2 = Inr s1 \<and> occupied s1 = []
        \<and> render demo_env two_images (new_sender ''7'') = Inr s4 \<and> slot_inv s4
        \<and> sendMessage demo_env two_images (new_sender ''7'') = Inr s5 \<and> occupied s5 = [])"
proof -
  let ?s = "new_sender ''7''"
  let ?img = "Segment ''image'' [''url'' \<mapsto> ''https://x/y.png''] []"
  have hd: "hd two_images = ?img" by (simp add: two_images_def)
  have inv: "slot_inv ?s" using one_slot_at_most [of "''7''"] by blast
  have "\<not> isl (render_node demo_env ?img ?s)" by code_simp
  then obtain s2 where s2: "render_node demo_env ?img ?s = Inr s2"
    by (cases "render_node demo_env ?img ?s") auto
  have inv2: "slot_inv s2"
    using one_slot_at_most [of _ ?s demo_env _ _ _ _ _ ?img s2] inv s2 by blast
  have len2: "length (occupied s2) \<le> 1"
    using one_slot_at_most [of _ s2] inv2 by blast
  have occ2: "occupied s2 \<noteq> []"
    using one_slot_at_most [of _ ?s demo_env _ "''image''" "[''url'' \<mapsto> ''https://x/y.png'']" "[]" s2]
      inv s2 by auto
  have "\<not> isl (sendBuffer demo_env (projr (render_node demo_env ?img ?s)))" by code_simp
  with s2 obtain s1 where s1: "sendBuffer demo_env s2 = Inr s1"
    by (cases "sendBuffer demo_env s2") auto
  have occ1: "occupied s1 = []"
    using one_slot_at_most [of _ s2 demo_env s1] inv2 s1 by blast
  have "\<not> isl (render demo_env two_images ?s)" by code_simp
  then obtain s4 where s4: "render demo_env two_images ?s = Inr s4"
    by (cases "render demo_env two_images ?s") auto
  have inv4: "slot_inv s4"
    using one_slot_at_most [of _ ?s demo_env _ _ _ _ _ _ _ two_images s4] inv s4 by blast
  have "\<not> isl (sendMessage demo_env two_images ?s)" by code_simp
  then obtain s5 where s5: "sendMessage demo_env two_images ?s = Inr s5"
    by (cases "sendMessage demo_env two_images ?s") auto
  have occ5: "occupied s5 = []"
    using one_slot_at_most [of _ ?s demo_env _ _ _ _ _ _ _ two_images _ s5] inv s5 by blast
  show ?thesis
    unfolding hd using inv s2 inv2 len2 occ2 s1 occ1 s4 inv4 s5 occ5 by blast
qed

section \<open>Media nodes: the occupy step\<close>

lemma pget_update: "pget (AList.update k v p) k = v"
  by (simp add: pget_def update_conv')

lemma select_asset_image_Inr:
  assumes "select_asset E ''image'' u = Inr (t, w)"
  shows "isGif E u = Inr (t = Animation, w) \<and> (t = Animation \<or> t = Photo)"
proof (cases "isGif E u")
  case (Inl e)
  with assms show ?thesis by (simp add: select_asset_image)
next
  case (Inr p)
  obtain g w' where p: "p = (g, w')" by (cases p)
  with Inr assms have "t = (if g then Animation else Photo)" "w' = w"
    by (simp_all add: select_asset_image)
  with Inr p show ?thesis by (cases g) simp_all
qed

lemma media_node_Inr:
  assumes ty: "ty \<in> {''image'', ''audio'', ''video'', ''file''}"
    and r: "render_node E (Segment ty a ch) s = Inr s'"
  shows "\<exists>s1 t w. sendBuffer E s = Inr s1
    \<and> select_asset E ty (attr a ''url'') = Inr (t, w)
    \<and> s' = s1\<lparr> assetType := Some t, warnings := warnings s1 @ w,
              payload := AList.update (asset_key t) (attr a ''url'') (payload s1) \<rparr>"
proof -
  from r obtain s1 where f: "sendBuffer E s = Inr s1"
    by (cases "sendBuffer E s") (simp_all add: render_node_media [OF ty])
  with r obtain t w where c: "select_asset E ty (attr a ''url'') = Inr (t, w)"
    by (cases "select_asset E ty (attr a ''url'')") (auto simp: render_node_media [OF ty])
  from r f c have "s' = s1\<lparr> assetType := Some t, warnings := warnings s1 @ w,
              payload := AList.update (asset_key t) (attr a ''url'') (payload s1) \<rparr>"
    by (simp add: render_node_media [OF ty] pset_def)
  with f c show ?thesis by blast
qed

lemma media_node_Inl:
  assumes ty: "ty \<in> {''image'', ''audio'', ''video'', ''file''}"
    and r: "render_node E (Segment ty a ch) s = Inl e"
  shows "sendBuffer E s = Inl e \<or> (ty = ''image'' \<and> isGif E (attr a ''url'') = Inl e)"
proof (cases "sendBuffer E s")
  case (Inl e')
  with r show ?thesis by (simp add: render_node_media [OF ty])
next
  case (Inr s1)
  with r have c: "select_asset E ty (attr a ''url'') = Inl e"
    by (cases "select_asset E ty (attr a ''url'')") (auto simp: render_node_media [OF ty])
  from ty have "ty = ''image''"
    by (elim insertE emptyE) (use c in \<open>simp_all add: select_asset_others\<close>)
  with c have "isGif E (attr a ''url'') = Inl e"
    by (cases "isGif E (attr a ''url'')") (auto simp: select_asset_image)
  with \<open>ty = ''image''\<close> show ?thesis by simp
qed

lemma sendBuffer_asset: "assetType s = Some t \<Longrightarrow> sendBuffer E s = sendAsset E s"
  by (simp add: sendBuffer_def)

section \<open>Splitting a reference\<close>

lemma split_first_None: "\<not> sublist sep s \<Longrightarrow> split_first sep s = None"
proof (induction s)
  case Nil
  then show ?case by simp
next
  case (Cons c cs)
  from Cons.prems have "\<not> prefix sep (c # cs)"
    by (auto simp: prefix_def)
  moreover from Cons.prems have "\<not> sublist sep cs"
    by (auto simp: sublist_Cons_right)
  ultimately show ?case using Cons.IH by simp
qed

lemma js_split_none: "\<not> sublist sep s \<Longrightarrow> js_split sep s = [s]"
proof -
  assume a: "\<not> sublist sep s"
  then have "sep \<noteq> []" by auto
  with split_first_None [OF a] show ?thesis by (simp add: js_split.simps)
qed

lemma split_first_append:
  assumes "sep \<noteq> []" "\<not> sublist sep (pre @ butlast sep)"
  shows "split_first sep (pre @ sep @ d) = Some (pre, d)"
  using assms
proof (induction pre)
  case Nil
  then obtain c cs where "sep = c # cs" by (cases sep) auto
  then show ?case by simp
next
  case (Cons c pre)
  have "\<not> prefix sep (c # pre @ sep @ d)"
  proof
    assume p: "prefix sep (c # pre @ sep @ d)"
    have "length sep \<le> length (c # pre @ butlast sep)" by simp
    moreover have "c # pre @ sep @ d = (c # pre @ butlast sep) @ (last sep # d)"
      using Cons.prems(1) by simp
    ultimately have "prefix sep (c # pre @ butlast sep)"
      using p by (metis prefix_length_prefix prefixI)
    then have "sublist sep (c # pre @ butlast sep)" by (rule prefix_imp_sublist)
    with Cons.prems(2) show False by simp
  qed
  moreover from Cons.prems(2) have "\<not> sublist sep (pre @ butlast sep)"
    by (auto simp: sublist_Cons_right)
  ultimately show ?case using Cons.IH Cons.prems(1) by simp
qed

lemma js_split_append:
  assumes "sep \<noteq> []" "\<not> sublist sep (pre @ butlast sep)"
  shows "js_split sep (pre @ sep @ d) = pre # js_split sep d"
  using split_first_append [OF assms, of d] assms(1)
  by (subst js_split.simps) simp

lemma hd_js_split: "sep \<noteq> [] \<Longrightarrow> js_split sep d = up_to sep d # tl (js_split sep d)"
  by (subst (1 2) js_split.simps) (simp add: up_to_def split: option.splits)

lemma at_index_second:
  assumes "sep \<noteq> []" "\<not> sublist sep (pre @ butlast sep)"
  shows "at_index (js_split sep (pre @ sep @ d)) 1 = Some (up_to sep d)"
proof -
  have "js_split sep (pre @ sep @ d) = pre # up_to sep d # tl (js_split sep d)"
    using js_split_append [OF assms, of d] hd_js_split [OF assms(1), of d] by simp
  then show ?thesis by (simp add: at_index_def)
qed

lemma up_to_whole: "\<not> sublist sep d \<Longrightarrow> up_to sep d = d"
  by (simp add: up_to_def split_first_None)

lemma scheme_no_sep: "CHR '':'' \<notin> set pre \<Longrightarrow> \<not> sublist ''://'' (pre @ '':/'')"
proof (induction pre)
  case Nil
  show ?case by (simp add: sublist_Cons_right)
next
  case (Cons c pre)
  then show ?case by (simp add: sublist_Cons_right)
qed

section \<open>A data reference without the base64 marker\<close>

lemma maybeFile_data_no_marker:
  assumes "pget p (asset_key field) = Str ref" "ref \<noteq> []"
    "url_protocol E ref = Some ''data:''" "\<not> sublist ''base64,'' ref"
  shows "maybeFile E p field = Inl (TypeError ''The first argument must be of type string'')"
  using assms
  by (simp add: maybeFile_def truthy_def to_str_def resolve_content_def js_split_none at_index_def)

lemma sendAsset_maybeFile_Inl:
  "assetType s = Some f \<Longrightarrow> maybeFile E (payload s) f = Inl e \<Longrightarrow> sendAsset E s = Inl e"
  by (simp add: sendAsset_def)

lemma flushing_node_Inl:
  assumes "ty \<in> set flushing" "sendBuffer E s = Inl e"
  shows "render_node E (Segment ty a ch) s = Inl e"
proof (cases ty rule: ty_cases)
  case cap
  then have "ty \<notin> set flushing"
    by (elim insertE emptyE; hypsubst) (simp_all add: flushing_def)
  with assms(1) show ?thesis by simp
next
  case media
  then show ?thesis using assms(2) by (simp add: render_node_media)
next
  case reply
  then show ?thesis using assms(2) by (simp add: render_node_quote)
next
  case msg
  then show ?thesis using assms(2) by (simp add: render_node_message)
next
  case mode
  then show ?thesis using assms(2) by (simp add: render_node_mode)
next
  case other
  then have "ty \<notin> set flushing" by (simp add: flushing_def)
  with assms(1) show ?thesis by simp
qed

text \<open>
  C10. When the occupied slot holds a non-empty reference whose protocol is \<open>data:\<close> and
  whose text does not contain \<open>base64,\<close>, resolution throws a type error (the decoder is
  handed \<^verbatim>\<open>undefined\<close>): \<open>maybeFile\<close> neither returns the all-undefined triple nor passes
  the reference through. The flush throws the same error, and so does the walk: the final
  flush of a message, and every list that starts with a node that flushes first, whatever
  follows it.
\<close>

theorem data_reference_without_marker_throws:
  assumes slot: "assetType s = Some field"
    and ref: "pget (payload s) (asset_key field) = Str ref" "ref \<noteq> []"
    and proto: "url_protocol E ref = Some ''data:''"
    and marker: "\<not> sublist ''base64,'' ref"
  shows "maybeFile E (payload s) field
           = Inl (TypeError ''The first argument must be of type string'')
       \<and> sendBuffer E s = Inl (TypeError ''The first argument must be of type string'')
       \<and> sendMessage E [] s = Inl (TypeError ''The first argument must be of type string'')
       \<and> (\<forall>ty a ch rest. ty \<in> set flushing \<longrightarrow>
             render E (Segment ty a ch # rest) s
               = Inl (TypeError ''The first argument must be of type string'')
           \<and> sendMessage E (Segment ty a ch # rest) s
               = Inl (TypeError ''The first argument must be of type string''))"
proof -
  let ?e = "TypeError ''The first argument must be of type string''"
  have m: "maybeFile E (payload s) field = Inl ?e"
    using ref proto marker by (rule maybeFile_data_no_marker)
  have f: "sendBuffer E s = Inl ?e"
    using slot sendAsset_maybeFile_Inl [OF slot m] by (simp add: sendBuffer_def)
  have e: "sendMessage E [] s = Inl ?e"
    using f by (simp add: sendMessage_def)
  have n: "render E (Segment ty a ch # rest) s = Inl ?e
           \<and> sendMessage E (Segment ty a ch # rest) s = Inl ?e"
    if "ty \<in> set flushing" for ty a ch rest
    using flushing_node_Inl [OF that f, of a ch] by (simp add: sendMessage_def)
  from m f e n show ?thesis by blast
qed

theorem data_reference_without_marker_throws_witness:
  "assetType data_pending = Some Photo
   \<and> pget (payload data_pending) (asset_key Photo) = Str ''data:text/plain,hi''
   \<and> ''data:text/plain,hi'' \<noteq> []
   \<and> url_protocol demo_env ''data:text/plain,hi'' = Some ''data:''
   \<and> \<not> sublist ''base64,'' ''data:text/plain,hi''
   \<and> ''quote'' \<in> set flushing
   \<and> maybeFile demo_env (payload data_pending) Photo
        = Inl (TypeError ''The first argument must be of type string'')
   \<and> sendBuffer demo_env data_pending
        = Inl (TypeError ''The first argument must be of type string'')
   \<and> render demo_env
        [Segment ''quote'' [''id'' \<mapsto> ''5''] [], Segment ''text'' [''content'' \<mapsto> ''later''] []]
        data_pending
        = Inl (TypeError ''The first argument must be of type string'')"
proof -
  have h1: "assetType data_pending = Some Photo" by (simp add: data_pending_def pset_def)
  have h2: "pget (payload data_pending) (asset_key Photo) = Str ''data:text/plain,hi''"
    by code_simp
  have h3: "''data:text/plain,hi'' \<noteq> []" by simp
  have h4: "url_protocol demo_env ''data:text/plain,hi'' = Some ''data:''" by code_simp
  have h5: "\<not> sublist ''base64,'' ''data:text/plain,hi''" by code_simp
  have h6: "''quote'' \<in> set flushing" by (simp add: flushing_def)
  from data_reference_without_marker_throws [OF h1 h2 h3 h4 h5] h1 h2 h3 h4 h5 h6
  show ?thesis by blast
qed

section \<open>Triage of a reference\<close>

lemma maybeFile_no_reference:
  "\<not> truthy (pget p (asset_key field)) \<Longrightarrow> maybeFile E p field = Inr ((None, None, None), p, [])"
  by (simp add: maybeFile_def)

lemma maybeFile_reference:
  assumes "pget p (asset_key field) = Str ref" "ref \<noteq> []"
  shows "maybeFile E p field =
     (case url_protocol E ref of
        None \<Rightarrow> Inl (TypeError ''Invalid URL'')
      | Some protocol \<Rightarrow>
          (case resolve_content E p (asset_key field) ref protocol of
             Inl e \<Rightarrow> Inl e
           | Inr (content, p') \<Rightarrow>
               if field = Document \<and> (protocol = ''base64:'' \<or> protocol = ''data:'') then
                 (case sniff E content of
                    None \<Rightarrow>
                      Inr ((Some field, content, Some ''file''), p',
                           [''Can not infer file mime''])
                  | Some ext \<Rightarrow>
                      Inr ((Some field, content, Some (''file.'' @ ext)), p', []))
               else Inr ((Some field, content, Some ''file''), p', [])))"
  using assms by (simp add: maybeFile_def truthy_def to_str_def)

lemma maybeFile_decoded:
  assumes r: "pget p (asset_key field) = Str ref" "ref \<noteq> []"
    and pr: "url_protocol E ref = Some pr" "pr = ''base64:'' \<or> pr = ''data:''"
    and c: "resolve_content E p (asset_key field) ref pr
              = Inr (Some (Buffer b), AList.delete (asset_key field) p)"
  shows "\<exists>fn w. maybeFile E p field
            = Inr ((Some field, Some (Buffer b), Some fn), AList.delete (asset_key field) p, w)"
proof (cases "field = Document")
  case True
  show ?thesis
  proof (cases "fromBuffer E b")
    case None
    show ?thesis unfolding maybeFile_reference [OF r]
      using True pr c None by (simp add: sniff_def)
  next
    case (Some ext)
    show ?thesis unfolding maybeFile_reference [OF r]
      using True pr c Some by (simp add: sniff_def)
  qed
next
  case False
  show ?thesis unfolding maybeFile_reference [OF r]
    using False pr c by simp
qed

text \<open>
  C6, as the code has it. \<open>maybeFile\<close> returns the all-undefined triple, and leaves the
  payload alone, when the slot holds no reference (\<^verbatim>\<open>undefined\<close> or the empty string).
  Otherwise the reference goes through the URL parser, and a reference it rejects throws.
  A \<open>file:\<close> reference whose URL converts to a local path yields a read stream on that
  path (a URL that does not convert throws). A \<open>base64:\<close> reference of the form
  \<open>scheme://data\<close> yields the decoded data up to the next \<open>://\<close>, that is all of it when
  there is none; a \<open>base64:\<close> reference without \<open>://\<close> throws. A \<open>data:\<close> reference with
  the marker \<open>base64,\<close> yields the decoded text that follows the first marker, up to the
  next one. In these three cases the slot is deleted from the payload. Any other protocol
  yields no content and the default filename, and the reference stays in the payload, to
  be sent as a plain string.
\<close>

theorem maybeFile_triage:
  "(\<not> truthy (pget p (asset_key field)) \<longrightarrow>
      maybeFile E p field = Inr ((None, None, None), p, []))
   \<and> (pget p (asset_key field) = Str ref \<and> ref \<noteq> [] \<longrightarrow>
        (url_protocol E ref = None \<longrightarrow> maybeFile E p field = Inl (TypeError ''Invalid URL''))
      \<and> (url_protocol E ref = Some ''file:'' \<and> fileURLToPath E ref = Some path \<longrightarrow>
           maybeFile E p field
             = Inr ((Some field, Some (ReadStream path), Some ''file''),
                    AList.delete (asset_key field) p, []))
      \<and> (url_protocol E ref = Some ''file:'' \<and> fileURLToPath E ref = None \<longrightarrow>
           maybeFile E p field = Inl (TypeError ''The URL must be a local file path''))
      \<and> (url_protocol E ref = Some ''base64:'' \<and> ref = pre @ ''://'' @ d
            \<and> CHR '':'' \<notin> set pre \<longrightarrow>
           (\<exists>fn w. maybeFile E p field
              = Inr ((Some field, Some (Buffer (from_base64 E (up_to ''://'' d))), Some fn),
                     AList.delete (asset_key field) p, w)))
      \<and> (url_protocol E ref = Some ''base64:'' \<and> \<not> sublist ''://'' ref \<longrightarrow>
           maybeFile E p field = Inl (TypeError ''The first argument must be of type string''))
      \<and> (url_protocol E ref = Some ''data:'' \<and> ref = pre' @ ''base64,'' @ d'
            \<and> \<not> sublist ''base64,'' (pre' @ ''base64'') \<longrightarrow>
           (\<exists>fn w. maybeFile E p field
              = Inr ((Some field, Some (Buffer (from_base64 E (up_to ''base64,'' d'))), Some fn),
                     AList.delete (asset_key field) p, w)))
      \<and> (url_protocol E ref = Some pr \<and> pr \<notin> {''file:'', ''base64:'', ''data:''} \<longrightarrow>
           maybeFile E p field = Inr ((Some field, None, Some ''file''), p, [])))
   \<and> (\<not> sublist sep t \<longrightarrow> up_to sep t = t)"
proof (intro conjI impI; (elim conjE)?)
  assume "\<not> truthy (pget p (asset_key field))"
  then show "maybeFile E p field = Inr ((None, None, None), p, [])"
    by (rule maybeFile_no_reference)
next
  assume r: "pget p (asset_key field) = Str ref" "ref \<noteq> []" and "url_protocol E ref = None"
  then show "maybeFile E p field = Inl (TypeError ''Invalid URL'')"
    by (simp add: maybeFile_reference [OF r])
next
  assume r: "pget p (asset_key field) = Str ref" "ref \<noteq> []"
    and "url_protocol E ref = Some ''file:''" "fileURLToPath E ref = Some path"
  then show "maybeFile E p field
             = Inr ((Some field, Some (ReadStream path), Some ''file''),
                    AList.delete (asset_key field) p, [])"
    by (simp add: maybeFile_reference [OF r] resolve_content_def)
next
  assume r: "pget p (asset_key field) = Str ref" "ref \<noteq> []"
    and "url_protocol E ref = Some ''file:''" "fileURLToPath E ref = None"
  then show "maybeFile E p field = Inl (TypeError ''The URL must be a local file path'')"
    by (simp add: maybeFile_reference [OF r] resolve_content_def)
next
  assume r: "pget p (asset_key field) = Str ref" "ref \<noteq> []"
    and pr: "url_protocol E ref = Some ''base64:''"
    and form: "ref = pre @ ''://'' @ d" "CHR '':'' \<notin> set pre"
  have "at_index (js_split ''://'' (pre @ ''://'' @ d)) 1 = Some (up_to ''://'' d)"
    using scheme_no_sep [OF form(2)] by (intro at_index_second) simp_all
  with form(1) have "resolve_content E p (asset_key field) ref ''base64:''
      = Inr (Some (Buffer (from_base64 E (up_to ''://'' d))), AList.delete (asset_key field) p)"
    by (simp add: resolve_content_def)
  with r pr show "\<exists>fn w. maybeFile E p field
              = Inr ((Some field, Some (Buffer (from_base64 E (up_to ''://'' d))), Some fn),
                     AList.delete (asset_key field) p, w)"
    by (intro maybeFile_decoded [where pr = "''base64:''"]) simp_all
next
  assume r: "pget p (asset_key field) = Str ref" "ref \<noteq> []"
    and "url_protocol E ref = Some ''base64:''" "\<not> sublist ''://'' ref"
  then show "maybeFile E p field = Inl (TypeError ''The first argument must be of type string'')"
    by (simp add: maybeFile_reference [OF r] resolve_content_def js_split_none at_index_def)
next
  assume r: "pget p (asset_key field) = Str ref" "ref \<noteq> []"
    and pr: "url_protocol E ref = Some ''data:''"
    and form: "ref = pre' @ ''base64,'' @ d'" "\<not> sublist ''base64,'' (pre' @ ''base64'')"
  have "at_index (js_split ''base64,'' (pre' @ ''base64,'' @ d')) 1 = Some (up_to ''base64,'' d')"
    using form(2) by (intro at_index_second) simp_all
  with form(1) have "resolve_content E p (asset_key field) ref ''data:''
      = Inr (Some (Buffer (from_base64 E (up_to ''base64,'' d'))), AList.delete (asset_key field) p)"
    by (simp add: resolve_content_def)
  with r pr show "\<exists>fn w. maybeFile E p field
              = Inr ((Some field, Some (Buffer (from_base64 E (up_to ''base64,'' d'))), Some fn),
                     AList.delete (asset_key field) p, w)"
    by (intro maybeFile_decoded [where pr = "''data:''"]) simp_all
next
  assume r: "pget p (asset_key field) = Str ref" "ref \<noteq> []"
    and "url_protocol E ref = Some pr" "pr \<notin> {''file:'', ''base64:'', ''data:''}"
  then show "maybeFile E p field = Inr ((Some field, None, Some ''file''), p, [])"
    by (simp add: maybeFile_reference [OF r] resolve_content_def)
next
  assume "\<not> sublist sep t"
  then show "up_to sep t = t" by (rule up_to_whole)
qed

text \<open>
  C6 as stated fails for a \<open>base64:\<close> reference that has no \<open>://\<close>: nothing is decoded,
  resolution throws.
\<close>

theorem base64_reference_without_slashes_throws:
  "url_protocol demo_env ''base64:QUJD'' = Some ''base64:''
   \<and> maybeFile demo_env
        [(''chat_id'', Str ''7''), (''caption'', Str ''''), (''photo'', Str ''base64:QUJD'')] Photo
       = Inl (TypeError ''The first argument must be of type string'')"
  by code_simp


theorem maybeFile_triage_witness:
  "\<not> truthy (pget (payload (new_sender ''7'')) (asset_key Photo))
   \<and> maybeFile demo_env (payload (new_sender ''7'')) Photo
       = Inr ((None, None, None), payload (new_sender ''7''), [])
   \<and> pget (slot_payload ''video'' ''file:///tmp/a.mp4'') (asset_key Video) = Str ''file:///tmp/a.mp4''
   \<and> url_protocol demo_env ''file:///tmp/a.mp4'' = Some ''file:''
   \<and> fileURLToPath demo_env ''file:///tmp/a.mp4'' = Some ''/tmp/a.mp4''
   \<and> maybeFile demo_env (slot_payload ''video'' ''file:///tmp/a.mp4'') Video
       = Inr ((Some Video, Some (ReadStream ''/tmp/a.mp4''), Some ''file''),
              AList.delete ''video'' (slot_payload ''video'' ''file:///tmp/a.mp4''), [])
   \<and> url_protocol demo_env ''base64://JVBERi0='' = Some ''base64:''
   \<and> CHR '':'' \<notin> set ''base64''
   \<and> (\<exists>fn w. maybeFile demo_env (slot_payload ''document'' ''base64://JVBERi0='') Document
         = Inr ((Some Document, Some (Buffer ''%PDF-''), Some fn),
                AList.delete ''document'' (slot_payload ''document'' ''base64://JVBERi0=''), w))
   \<and> url_protocol demo_env ''data:image/gif;base64,R0lGODlh'' = Some ''data:''
   \<and> \<not> sublist ''base64,'' (''data:image/gif;'' @ ''base64'')
   \<and> (\<exists>fn w. maybeFile demo_env (slot_payload ''animation'' ''data:image/gif;base64,R0lGODlh'')
                 Animation
         = Inr ((Some Animation, Some (Buffer ''GIF89a''), Some fn),
                AList.delete ''animation''
                  (slot_payload ''animation'' ''data:image/gif;base64,R0lGODlh''), w))
   \<and> url_protocol demo_env ''https://x/y.png'' = Some ''https:''
   \<and> ''https:'' \<notin> {''file:'', ''base64:'', ''data:''}
   \<and> maybeFile demo_env (slot_payload ''photo'' ''https://x/y.png'') Photo
       = Inr ((Some Photo, None, Some ''file''), slot_payload ''photo'' ''https://x/y.png'', [])
   \<and> \<not> sublist ''://'' ''JVBERi0='' \<and> up_to ''://'' ''JVBERi0='' = ''JVBERi0=''"
proof -
  have a1: "\<not> truthy (pget (payload (new_sender ''7'')) (asset_key Photo))" by code_simp
  have a2: "maybeFile demo_env (payload (new_sender ''7'')) Photo
       = Inr ((None, None, None), payload (new_sender ''7''), [])"
    using maybeFile_triage [where p = "payload (new_sender ''7'')" and field = Photo] a1
    by blast
  have b1: "pget (slot_payload ''video'' ''file:///tmp/a.mp4'') (asset_key Video)
              = Str ''file:///tmp/a.mp4''" by code_simp
  have b2: "url_protocol demo_env ''file:///tmp/a.mp4'' = Some ''file:''" by code_simp
  have b3: "fileURLToPath demo_env ''file:///tmp/a.mp4'' = Some ''/tmp/a.mp4''" by code_simp
  have b4: "maybeFile demo_env (slot_payload ''video'' ''file:///tmp/a.mp4'') Video
       = Inr ((Some Video, Some (ReadStream ''/tmp/a.mp4''), Some ''file''),
              AList.delete ''video'' (slot_payload ''video'' ''file:///tmp/a.mp4''), [])"
    using maybeFile_triage [where p = "slot_payload ''video'' ''file:///tmp/a.mp4''"
        and field = Video and ref = "''file:///tmp/a.mp4''" and E = demo_env
        and path = "''/tmp/a.mp4''"] b1 b2 b3
    by simp
  have c1: "pget (slot_payload ''document'' ''base64://JVBERi0='') (asset_key Document)
              = Str ''base64://JVBERi0=''" by code_simp
  have c2: "url_protocol demo_env ''base64://JVBERi0='' = Some ''base64:''" by code_simp
  have c3: "CHR '':'' \<notin> set ''base64''" by simp
  have c4: "\<not> sublist ''://'' ''JVBERi0=''" by code_simp
  have c5: "up_to ''://'' ''JVBERi0='' = ''JVBERi0=''"
    using maybeFile_triage [where sep = "''://''" and t = "''JVBERi0=''"] c4 by blast
  have c6: "from_base64 demo_env ''JVBERi0='' = ''%PDF-''" by code_simp
  have c7: "\<exists>fn w. maybeFile demo_env (slot_payload ''document'' ''base64://JVBERi0='') Document
         = Inr ((Some Document, Some (Buffer ''%PDF-''), Some fn),
                AList.delete ''document'' (slot_payload ''document'' ''base64://JVBERi0=''), w)"
    using maybeFile_triage [where p = "slot_payload ''document'' ''base64://JVBERi0=''"
        and field = Document and ref = "''base64://JVBERi0=''" and E = demo_env
        and pre = "''base64''" and d = "''JVBERi0=''"] c1 c2 c3 c5 c6
    by simp
  have d1: "pget (slot_payload ''animation'' ''data:image/gif;base64,R0lGODlh'')
              (asset_key Animation) = Str ''data:image/gif;base64,R0lGODlh''" by code_simp
  have d2: "url_protocol demo_env ''data:image/gif;base64,R0lGODlh'' = Some ''data:''"
    by code_simp
  have d3: "\<not> sublist ''base64,'' (''data:image/gif;'' @ ''base64'')" by code_simp
  have d4: "\<not> sublist ''base64,'' ''R0lGODlh''" by code_simp
  have d5: "up_to ''base64,'' ''R0lGODlh'' = ''R0lGODlh''"
    using maybeFile_triage [where sep = "''base64,''" and t = "''R0lGODlh''"] d4 by blast
  have d6: "from_base64 demo_env ''R0lGODlh'' = ''GIF89a''" by code_simp
  have d7: "\<exists>fn w. maybeFile demo_env (slot_payload ''animation'' ''data:image/gif;base64,R0lGODlh'')
                 Animation
         = Inr ((Some Animation, Some (Buffer ''GIF89a''), Some fn),
                AList.delete ''animation''
                  (slot_payload ''animation'' ''data:image/gif;base64,R0lGODlh''), w)"
    using maybeFile_triage [where p = "slot_payload ''animation'' ''data:image/gif;base64,R0lGODlh''"
        and field = Animation and ref = "''data:image/gif;base64,R0lGODlh''" and E = demo_env
        and pre' = "''data:image/gif;''" and d' = "''R0lGODlh''"] d1 d2 d3 d5 d6
    by simp
  have e1: "pget (slot_payload ''photo'' ''https://x/y.png'') (asset_key Photo)
              = Str ''https://x/y.png''" by code_simp
  have e2: "url_protocol demo_env ''https://x/y.png'' = Some ''https:''" by code_simp
  have e3: "''https:'' \<notin> {''file:'', ''base64:'', ''data:''}" by simp
  have e4: "maybeFile demo_env (slot_payload ''photo'' ''https://x/y.png'') Photo
       = Inr ((Some Photo, None, Some ''file''), slot_payload ''photo'' ''https://x/y.png'', [])"
    using maybeFile_triage [where p = "slot_payload ''photo'' ''https://x/y.png''"
        and field = Photo and ref = "''https://x/y.png''" and E = demo_env
        and pr = "''https:''"] e1 e2 e3
    by simp
  show ?thesis
    by (intro conjI a1 a2 b1 b2 b3 b4 c2 c3 c7 d2 d3 d7 e2 e3 e4 c4 c5)
qed

section \<open>The filename of a resolved reference\<close>

lemma resolve_content_sniffer:
  "resolve_content (E\<lparr>fromBuffer := g\<rparr>) p k ref pr = resolve_content E p k ref pr"
  by (simp add: resolve_content_def cong: option.case_cong)

lemma resolve_content_buffer:
  assumes "resolve_content E p k ref pr = Inr (c, p')" "pr = ''base64:'' \<or> pr = ''data:''"
  shows "\<exists>b. c = Some (Buffer b)"
  using assms by (auto simp: resolve_content_def split: option.splits)

lemma maybeFile_isl:
  "isl (maybeFile E p field) =
     (truthy (pget p (asset_key field)) \<and>
      (case url_protocol E (to_str (pget p (asset_key field))) of
         None \<Rightarrow> True
       | Some pr \<Rightarrow>
           isl (resolve_content E p (asset_key field) (to_str (pget p (asset_key field))) pr)))"
proof (cases "truthy (pget p (asset_key field))")
  case False
  then show ?thesis by (simp add: maybeFile_def)
next
  case True
  show ?thesis
  proof (cases "url_protocol E (to_str (pget p (asset_key field)))")
    case None
    with True show ?thesis by (simp add: maybeFile_def)
  next
    case (Some pr)
    show ?thesis
    proof (cases "resolve_content E p (asset_key field) (to_str (pget p (asset_key field))) pr")
      case (Inl e)
      with True Some show ?thesis by (simp add: maybeFile_def)
    next
      case (Inr r)
      obtain c p' where r: "r = (c, p')" by (cases r)
      show ?thesis
        unfolding maybeFile_def Let_def using True Some Inr r
        by (cases "sniff E c") simp_all
    qed
  qed
qed

text \<open>
  C8. Whenever \<open>maybeFile\<close> resolves a reference, the filename is \<open>file\<close> and nothing is
  logged, except for the document slot with a \<open>base64:\<close> or \<open>data:\<close> reference: there the
  content is a buffer of decoded bytes, these bytes are sniffed, and the filename is
  \<open>file.\<close> followed by the extension when the sniffer finds one; when it finds none, the
  filename stays \<open>file\<close> and one warning is logged. What the sniffer answers never decides
  whether the resolution returns or throws.
\<close>

theorem filename_policy:
  "(pget p (asset_key field) = Str ref \<and> ref \<noteq> []
      \<and> maybeFile E p field = Inr ((f, c, fn), p', w) \<longrightarrow>
     (\<exists>pr. url_protocol E ref = Some pr
        \<and> (\<not> (field = Document \<and> (pr = ''base64:'' \<or> pr = ''data:'')) \<longrightarrow>
              fn = Some ''file'' \<and> w = [])
        \<and> (field = Document \<and> (pr = ''base64:'' \<or> pr = ''data:'') \<longrightarrow>
              (\<exists>b. c = Some (Buffer b)
                 \<and> (case fromBuffer E b of
                      Some ext \<Rightarrow> fn = Some (''file.'' @ ext) \<and> w = []
                    | None \<Rightarrow> fn = Some ''file'' \<and> w = [''Can not infer file mime''])))))
   \<and> isl (maybeFile (E\<lparr>fromBuffer := g\<rparr>) p field) = isl (maybeFile E p field)"
proof (intro conjI impI; (elim conjE)?)
  assume r: "pget p (asset_key field) = Str ref" "ref \<noteq> []"
    and m: "maybeFile E p field = Inr ((f, c, fn), p', w)"
  from m obtain pr where pr: "url_protocol E ref = Some pr"
    by (cases "url_protocol E ref") (simp_all add: maybeFile_reference [OF r])
  from m pr obtain c0 p0 where rc: "resolve_content E p (asset_key field) ref pr = Inr (c0, p0)"
    by (cases "resolve_content E p (asset_key field) ref pr")
       (auto simp: maybeFile_reference [OF r])
  have plain: "fn = Some ''file'' \<and> w = []"
    if "\<not> (field = Document \<and> (pr = ''base64:'' \<or> pr = ''data:''))"
    using m pr rc that by (simp add: maybeFile_reference [OF r])
  have doc: "\<exists>b. c = Some (Buffer b)
                 \<and> (case fromBuffer E b of
                      Some ext \<Rightarrow> fn = Some (''file.'' @ ext) \<and> w = []
                    | None \<Rightarrow> fn = Some ''file'' \<and> w = [''Can not infer file mime''])"
    if d: "field = Document \<and> (pr = ''base64:'' \<or> pr = ''data:'')"
  proof -
    from resolve_content_buffer [OF rc] d obtain b where b: "c0 = Some (Buffer b)" by blast
    show ?thesis
    proof (cases "fromBuffer E b")
      case None
      with m pr rc b d have "c = Some (Buffer b)" "fn = Some ''file''"
        "w = [''Can not infer file mime'']"
        unfolding maybeFile_reference [OF r] by (simp_all add: sniff_def)
      with None show ?thesis by simp
    next
      case (Some ext)
      with m pr rc b d have "c = Some (Buffer b)" "fn = Some (''file.'' @ ext)" "w = []"
        unfolding maybeFile_reference [OF r] by (simp_all add: sniff_def)
      with Some show ?thesis by simp
    qed
  qed
  from pr plain doc
  show "\<exists>pr. url_protocol E ref = Some pr
        \<and> (\<not> (field = Document \<and> (pr = ''base64:'' \<or> pr = ''data:'')) \<longrightarrow>
              fn = Some ''file'' \<and> w = [])
        \<and> (field = Document \<and> (pr = ''base64:'' \<or> pr = ''data:'') \<longrightarrow>
              (\<exists>b. c = Some (Buffer b)
                 \<and> (case fromBuffer E b of
                      Some ext \<Rightarrow> fn = Some (''file.'' @ ext) \<and> w = []
                    | None \<Rightarrow> fn = Some ''file'' \<and> w = [''Can not infer file mime''])))"
    by blast
next
  show "isl (maybeFile (E\<lparr>fromBuffer := g\<rparr>) p field) = isl (maybeFile E p field)"
    by (simp add: maybeFile_isl resolve_content_sniffer cong: option.case_cong)
qed


theorem filename_policy_witness:
  "pget (slot_payload ''document'' ''base64://aGk='') (asset_key Document) = Str ''base64://aGk=''
   \<and> ''base64://aGk='' \<noteq> []
   \<and> url_protocol demo_env ''base64://aGk='' = Some ''base64:''
   \<and> fromBuffer demo_env ''hi'' = None
   \<and> maybeFile demo_env (slot_payload ''document'' ''base64://aGk='') Document
       = Inr ((Some Document, Some (Buffer ''hi''), Some ''file''),
              AList.delete ''document'' (slot_payload ''document'' ''base64://aGk=''),
              [''Can not infer file mime''])
   \<and> maybeFile demo_env (slot_payload ''document'' ''base64://JVBERi0='') Document
       = Inr ((Some Document, Some (Buffer ''%PDF-''), Some ''file.pdf''),
              AList.delete ''document'' (slot_payload ''document'' ''base64://JVBERi0=''), [])
   \<and> (case fromBuffer demo_env ''%PDF-'' of
          Some ext \<Rightarrow> ''file.pdf'' = ''file.'' @ ext
        | None \<Rightarrow> False)
   \<and> (\<exists>f c p'. maybeFile demo_env (slot_payload ''photo'' ''base64://JVBERi0='') Photo
                  = Inr ((f, c, Some ''file''), p', []))
   \<and> \<not> isl (maybeFile (demo_env\<lparr>fromBuffer := \<lambda>b. None\<rparr>)
               (slot_payload ''document'' ''base64://JVBERi0='') Document)"
proof -
  let ?p = "slot_payload ''document'' ''base64://aGk=''"
  let ?q = "slot_payload ''document'' ''base64://JVBERi0=''"
  let ?r = "slot_payload ''photo'' ''base64://JVBERi0=''"
  have a1: "pget ?p (asset_key Document) = Str ''base64://aGk=''" by code_simp
  have a2: "''base64://aGk='' \<noteq> []" by simp
  have a3: "url_protocol demo_env ''base64://aGk='' = Some ''base64:''" by code_simp
  have a4: "fromBuffer demo_env ''hi'' = None" by code_simp
  have a5: "maybeFile demo_env ?p Document
       = Inr ((Some Document, Some (Buffer ''hi''), Some ''file''),
              AList.delete ''document'' ?p, [''Can not infer file mime''])" by code_simp
  have a6: "maybeFile demo_env ?q Document
       = Inr ((Some Document, Some (Buffer ''%PDF-''), Some ''file.pdf''),
              AList.delete ''document'' ?q, [])" by code_simp
  have q1: "pget ?q (asset_key Document) = Str ''base64://JVBERi0=''" by code_simp
  have q2: "url_protocol demo_env ''base64://JVBERi0='' = Some ''base64:''" by code_simp
  from filename_policy [where p = ?q and field = Document and E = demo_env
      and ref = "''base64://JVBERi0=''" and c = "Some (Buffer ''%PDF-'')"
      and fn = "Some ''file.pdf''" and w = "[]"] q1 q2 a6
  obtain b where "Some (Buffer ''%PDF-'') = Some (Buffer b)"
    and "case fromBuffer demo_env b of
           Some ext \<Rightarrow> Some ''file.pdf'' = Some (''file.'' @ ext) \<and> ([]::string list) = []
         | None \<Rightarrow> Some ''file.pdf'' = Some ''file'' \<and> [] = [''Can not infer file mime'']"
    by auto
  then have a9: "case fromBuffer demo_env ''%PDF-'' of
          Some ext \<Rightarrow> ''file.pdf'' = ''file.'' @ ext
        | None \<Rightarrow> False"
    by (simp split: option.splits)
  have b1: "pget ?r (asset_key Photo) = Str ''base64://JVBERi0=''" by code_simp
  have b2: "url_protocol demo_env ''base64://JVBERi0='' = Some ''base64:''" by code_simp
  have "\<not> isl (maybeFile demo_env ?r Photo)" by code_simp
  then obtain f' c' fn' p'' w' where m': "maybeFile demo_env ?r Photo = Inr ((f', c', fn'), p'', w')"
    by (cases "maybeFile demo_env ?r Photo") auto
  from filename_policy [where p = ?r and field = Photo and E = demo_env
      and ref = "''base64://JVBERi0=''" and f = f' and c = c' and fn = fn' and p' = p''
      and w = w'] b1 b2 m'
  have "fn' = Some ''file'' \<and> w' = []" by auto
  with m' have a7: "\<exists>f c p'. maybeFile demo_env ?r Photo = Inr ((f, c, Some ''file''), p', [])"
    by blast
  have "\<not> isl (maybeFile demo_env ?q Document)" using a6 by simp
  with filename_policy [where p = ?q and field = Document and E = demo_env and g = "\<lambda>b. None"]
  have a8: "\<not> isl (maybeFile (demo_env\<lparr>fromBuffer := \<lambda>b. None\<rparr>) ?q Document)" by blast
  show ?thesis by (intro conjI a1 a2 a3 a4 a5 a6 a9 a7 a8)
qed

section \<open>Animated images\<close>

lemma lower_char_cases:
  "lower_char c = CHR ''.'' \<longleftrightarrow> c = CHR ''.''"
  "lower_char c = CHR ''g'' \<longleftrightarrow> c = CHR ''g'' \<or> c = CHR ''G''"
  "lower_char c = CHR ''i'' \<longleftrightarrow> c = CHR ''i'' \<or> c = CHR ''I''"
  "lower_char c = CHR ''f'' \<longleftrightarrow> c = CHR ''f'' \<or> c = CHR ''F''"
  by (auto simp: lower_char_def upper_case_def lower_case_def split: if_splits)

lemma endsWith_suffix: "endsWith s suf = suffix suf s"
  by (simp add: endsWith_def suffix_to_prefix)

lemma gif_suffix:
  "suffix ''.gif'' (toLowerCase url) \<longleftrightarrow>
     (\<exists>pre g i f. url = pre @ [CHR ''.'', g, i, f]
        \<and> g \<in> {CHR ''g'', CHR ''G''} \<and> i \<in> {CHR ''i'', CHR ''I''} \<and> f \<in> {CHR ''f'', CHR ''F''})"
proof
  assume "suffix ''.gif'' (toLowerCase url)"
  then obtain zs where z: "map lower_char url = zs @ ''.gif''"
    by (auto simp: suffix_def toLowerCase_def)
  then obtain pre e where u: "url = pre @ e" "map lower_char e = ''.gif''"
    by (metis map_eq_append_conv)
  from u(2) obtain d g i f where e: "e = [d, g, i, f]"
    "lower_char d = CHR ''.''" "lower_char g = CHR ''g''" "lower_char i = CHR ''i''"
    "lower_char f = CHR ''f''"
    by (auto simp: map_eq_Cons_conv)
  with u(1) show "\<exists>pre g i f. url = pre @ [CHR ''.'', g, i, f]
        \<and> g \<in> {CHR ''g'', CHR ''G''} \<and> i \<in> {CHR ''i'', CHR ''I''} \<and> f \<in> {CHR ''f'', CHR ''F''}"
    by (auto simp: lower_char_cases)
next
  assume "\<exists>pre g i f. url = pre @ [CHR ''.'', g, i, f]
        \<and> g \<in> {CHR ''g'', CHR ''G''} \<and> i \<in> {CHR ''i'', CHR ''I''} \<and> f \<in> {CHR ''f'', CHR ''F''}"
  then obtain pre g i f where u: "url = pre @ [CHR ''.'', g, i, f]"
    and l: "lower_char g = CHR ''g''" "lower_char i = CHR ''i''" "lower_char f = CHR ''f''"
    by (auto simp: lower_char_cases)
  have "lower_char CHR ''.'' = CHR ''.''" by (simp add: lower_char_cases)
  with u l have "toLowerCase url = map lower_char pre @ ''.gif''"
    by (simp add: toLowerCase_def)
  then show "suffix ''.gif'' (toLowerCase url)" by (simp add: suffix_def)
qed

lemma gif_data_Some:
  "gif_data pr url = Some d \<longleftrightarrow>
     (pr = ''base64:'' \<and> at_index (js_split ''://'' url) 1 = Some d
      \<or> pr = ''data:'' \<and> at_index (js_split ''base64,'' url) 1 = Some d)"
  by (simp add: gif_data_def)

lemma isGif_suffix:
  "suffix ''.gif'' (toLowerCase url) \<Longrightarrow> isGif E (Str url) = Inr (True, [])"
  by (simp add: isGif_def endsWith_suffix)

lemma isGif_no_suffix:
  assumes "\<not> suffix ''.gif'' (toLowerCase url)"
  shows "isGif E (Str url) =
     (case url_protocol E url of
        None \<Rightarrow> Inl (TypeError ''Invalid URL'')
      | Some protocol \<Rightarrow>
          (case gif_data protocol url of
             None \<Rightarrow> Inr (False, [])
           | Some data \<Rightarrow>
               if data = [] then Inr (False, [])
               else
                 (case fromBuffer E (from_base64 E data) of
                    None \<Rightarrow> Inr (False, [''Can not infer file mime''])
                  | Some ext \<Rightarrow> Inr (ext = ''gif'', []))))"
  using assms by (simp add: isGif_def endsWith_suffix)

lemma isGif_true_no_suffix:
  assumes n: "\<not> suffix ''.gif'' (toLowerCase url)"
  shows "(\<exists>w. isGif E (Str url) = Inr (True, w)) \<longleftrightarrow>
     (\<exists>pr d. url_protocol E url = Some pr \<and> gif_data pr url = Some d \<and> d \<noteq> []
            \<and> fromBuffer E (from_base64 E d) = Some ''gif'')"
proof (cases "url_protocol E url")
  case None
  then show ?thesis by (simp add: isGif_no_suffix [OF n])
next
  case (Some pr)
  show ?thesis
  proof (cases "gif_data pr url")
    case None
    with Some show ?thesis by (simp add: isGif_no_suffix [OF n])
  next
    case d: (Some d)
    show ?thesis
    proof (cases "d = []")
      case True
      with Some d show ?thesis by (simp add: isGif_no_suffix [OF n])
    next
      case False
      show ?thesis
      proof (cases "fromBuffer E (from_base64 E d)")
        case None
        with Some d False show ?thesis by (simp add: isGif_no_suffix [OF n])
      next
        case ext: (Some ext)
        with Some d False show ?thesis by (simp add: isGif_no_suffix [OF n])
      qed
    qed
  qed
qed

text \<open>
  C5. \<open>isGif\<close> answers true exactly when the reference ends in \<open>.gif\<close> in any mix of
  upper and lower case, or when its protocol is \<open>base64:\<close> or \<open>data:\<close>, the encoded text
  that follows the separator (\<open>://\<close>, respectively \<open>base64,\<close>) is not empty and its decoded
  bytes sniff as gif. In particular a \<open>base64:\<close> reference whose bytes sniff as png and
  that does not end in \<open>.gif\<close> is answered false; and a reference of any other protocol
  that does not end in \<open>.gif\<close> is answered false whatever the decoder and the sniffer
  are, so its bytes are never looked at. (The sender has no function that fetches a
  remote reference.)
\<close>

theorem isGif_classification:
  "((\<exists>w. isGif E (Str url) = Inr (True, w)) \<longleftrightarrow>
      suffix ''.gif'' (toLowerCase url)
      \<or> (\<exists>d. (url_protocol E url = Some ''base64:''
                 \<and> at_index (js_split ''://'' url) 1 = Some d
               \<or> url_protocol E url = Some ''data:''
                 \<and> at_index (js_split ''base64,'' url) 1 = Some d)
             \<and> d \<noteq> [] \<and> fromBuffer E (from_base64 E d) = Some ''gif''))
   \<and> (suffix ''.gif'' (toLowerCase url) \<longleftrightarrow>
        (\<exists>pre g i f. url = pre @ [CHR ''.'', g, i, f]
           \<and> g \<in> {CHR ''g'', CHR ''G''} \<and> i \<in> {CHR ''i'', CHR ''I''}
           \<and> f \<in> {CHR ''f'', CHR ''F''}))
   \<and> (\<not> suffix ''.gif'' (toLowerCase url) \<and> url_protocol E url = Some ''base64:''
        \<and> at_index (js_split ''://'' url) 1 = Some d'
        \<and> fromBuffer E (from_base64 E d') = Some ''png'' \<longrightarrow>
        isGif E (Str url) = Inr (False, []))
   \<and> (\<not> suffix ''.gif'' (toLowerCase url) \<and> url_protocol E url = Some pr
        \<and> pr \<noteq> ''base64:'' \<and> pr \<noteq> ''data:'' \<longrightarrow>
        isGif (E\<lparr>from_base64 := dec, fromBuffer := snf\<rparr>) (Str url) = Inr (False, []))"
proof (intro conjI impI; (elim conjE)?)
  show "(\<exists>w. isGif E (Str url) = Inr (True, w)) \<longleftrightarrow>
      suffix ''.gif'' (toLowerCase url)
      \<or> (\<exists>d. (url_protocol E url = Some ''base64:''
                 \<and> at_index (js_split ''://'' url) 1 = Some d
               \<or> url_protocol E url = Some ''data:''
                 \<and> at_index (js_split ''base64,'' url) 1 = Some d)
             \<and> d \<noteq> [] \<and> fromBuffer E (from_base64 E d) = Some ''gif'')"
  proof (cases "suffix ''.gif'' (toLowerCase url)")
    case True
    then show ?thesis by (simp add: isGif_suffix)
  next
    case False
    have "(\<exists>pr d. url_protocol E url = Some pr \<and> gif_data pr url = Some d \<and> d \<noteq> []
            \<and> fromBuffer E (from_base64 E d) = Some ''gif'')
        \<longleftrightarrow> (\<exists>d. (url_protocol E url = Some ''base64:''
                 \<and> at_index (js_split ''://'' url) 1 = Some d
               \<or> url_protocol E url = Some ''data:''
                 \<and> at_index (js_split ''base64,'' url) 1 = Some d)
             \<and> d \<noteq> [] \<and> fromBuffer E (from_base64 E d) = Some ''gif'')"
      unfolding gif_data_Some by blast
    with False show ?thesis by (simp only: isGif_true_no_suffix [OF False] simp_thms)
  qed
next
  show "suffix ''.gif'' (toLowerCase url) \<longleftrightarrow>
        (\<exists>pre g i f. url = pre @ [CHR ''.'', g, i, f]
           \<and> g \<in> {CHR ''g'', CHR ''G''} \<and> i \<in> {CHR ''i'', CHR ''I''}
           \<and> f \<in> {CHR ''f'', CHR ''F''})"
    by (rule gif_suffix)
next
  assume n: "\<not> suffix ''.gif'' (toLowerCase url)"
    and "url_protocol E url = Some ''base64:''" "at_index (js_split ''://'' url) 1 = Some d'"
    "fromBuffer E (from_base64 E d') = Some ''png''"
  then show "isGif E (Str url) = Inr (False, [])"
    by (simp add: isGif_no_suffix [OF n] gif_data_def)
next
  assume n: "\<not> suffix ''.gif'' (toLowerCase url)"
    and "url_protocol E url = Some pr" "pr \<noteq> ''base64:''" "pr \<noteq> ''data:''"
  then show "isGif (E\<lparr>from_base64 := dec, fromBuffer := snf\<rparr>) (Str url) = Inr (False, [])"
    by (simp add: isGif_no_suffix [OF n] gif_data_def)
qed


theorem isGif_classification_witness:
  "suffix ''.gif'' (toLowerCase ''https://x/CAT.GIF'')
   \<and> (\<exists>w. isGif demo_env (Str ''https://x/CAT.GIF'') = Inr (True, w))
   \<and> url_protocol demo_env ''base64://R0lGODlh'' = Some ''base64:''
   \<and> at_index (js_split ''://'' ''base64://R0lGODlh'') 1 = Some ''R0lGODlh''
   \<and> fromBuffer demo_env (from_base64 demo_env ''R0lGODlh'') = Some ''gif''
   \<and> (\<exists>w. isGif demo_env (Str ''base64://R0lGODlh'') = Inr (True, w))
   \<and> \<not> suffix ''.gif'' (toLowerCase ''base64://iVBORw0KGgo='')
   \<and> url_protocol demo_env ''base64://iVBORw0KGgo='' = Some ''base64:''
   \<and> at_index (js_split ''://'' ''base64://iVBORw0KGgo='') 1 = Some ''iVBORw0KGgo=''
   \<and> fromBuffer demo_env (from_base64 demo_env ''iVBORw0KGgo='') = Some ''png''
   \<and> isGif demo_env (Str ''base64://iVBORw0KGgo='') = Inr (False, [])
   \<and> \<not> suffix ''.gif'' (toLowerCase ''https://x/y.png'')
   \<and> url_protocol demo_env ''https://x/y.png'' = Some ''https:''
   \<and> isGif (demo_env\<lparr>from_base64 := \<lambda>t. ''GIF89a'', fromBuffer := \<lambda>b. Some ''gif''\<rparr>)
         (Str ''https://x/y.png'') = Inr (False, [])"
proof -
  have low: "toLowerCase ''https://x/CAT.GIF'' = ''https://x/cat.gif''"
    "toLowerCase ''base64://iVBORw0KGgo='' = ''base64://ivborw0kggo=''"
    "toLowerCase ''https://x/y.png'' = ''https://x/y.png''"
    by code_simp+
  have a1: "suffix ''.gif'' (toLowerCase ''https://x/CAT.GIF'')"
    unfolding low by (simp add: suffix_to_prefix)
  have a2: "\<exists>w. isGif demo_env (Str ''https://x/CAT.GIF'') = Inr (True, w)"
    using isGif_classification [where E = demo_env and url = "''https://x/CAT.GIF''"] a1
    by blast
  have b1: "url_protocol demo_env ''base64://R0lGODlh'' = Some ''base64:''" by code_simp
  have b2: "at_index (js_split ''://'' ''base64://R0lGODlh'') 1 = Some ''R0lGODlh''"
    by code_simp
  have b3: "fromBuffer demo_env (from_base64 demo_env ''R0lGODlh'') = Some ''gif''"
    by code_simp
  have b4: "''R0lGODlh'' \<noteq> []" by simp
  have b5: "\<exists>w. isGif demo_env (Str ''base64://R0lGODlh'') = Inr (True, w)"
    using isGif_classification [where E = demo_env and url = "''base64://R0lGODlh''"]
      b1 b2 b3 b4 by blast
  have c1: "\<not> suffix ''.gif'' (toLowerCase ''base64://iVBORw0KGgo='')"
    unfolding low by (simp add: suffix_to_prefix)
  have c2: "url_protocol demo_env ''base64://iVBORw0KGgo='' = Some ''base64:''" by code_simp
  have c3: "at_index (js_split ''://'' ''base64://iVBORw0KGgo='') 1 = Some ''iVBORw0KGgo=''"
    by code_simp
  have c4: "fromBuffer demo_env (from_base64 demo_env ''iVBORw0KGgo='') = Some ''png''"
    by code_simp
  have c5: "isGif demo_env (Str ''base64://iVBORw0KGgo='') = Inr (False, [])"
    using isGif_classification [where E = demo_env and url = "''base64://iVBORw0KGgo=''"
        and d' = "''iVBORw0KGgo=''"] c1 c2 c3 c4 by blast
  have d1: "\<not> suffix ''.gif'' (toLowerCase ''https://x/y.png'')"
    unfolding low by (simp add: suffix_to_prefix)
  have d2: "url_protocol demo_env ''https://x/y.png'' = Some ''https:''" by code_simp
  have d3: "''https:'' \<noteq> ''base64:''" "''https:'' \<noteq> ''data:''" by simp_all
  have d4: "isGif (demo_env\<lparr>from_base64 := \<lambda>t. ''GIF89a'', fromBuffer := \<lambda>b. Some ''gif''\<rparr>)
         (Str ''https://x/y.png'') = Inr (False, [])"
    using isGif_classification [where E = demo_env and url = "''https://x/y.png''"
        and pr = "''https:''"] d1 d2 d3 by blast
  show ?thesis by (intro conjI a1 a2 b1 b2 b3 b5 c1 c2 c3 c4 c5 d1 d2 d4)
qed

section \<open>The format mode\<close>

lemma form_fields_lookup:
  "form_fields p = Inr fs \<Longrightarrow> map_of p k = Some (Str v) \<Longrightarrow> map_of fs k = Some v"
proof (induction p arbitrary: fs)
  case Nil
  then show ?case by simp
next
  case (Cons kv p)
  obtain k' v' where kv: "kv = (k', v')" by (cases kv)
  from Cons.prems(1) kv obtain x fs' where x: "toString v' = Inr x"
    and fs': "form_fields p = Inr fs'" and fs: "fs = (k', x) # fs'"
    by (auto split: sum.splits)
  show ?case
  proof (cases "k' = k")
    case True
    with Cons.prems(2) kv have "v' = Str v" by simp
    with x have "x = v" by (simp add: toString_def)
    with True fs show ?thesis by simp
  next
    case False
    with Cons.prems(2) kv have "map_of p k = Some (Str v)" by simp
    with Cons.IH fs' have "map_of fs' k = Some v" by blast
    with False fs show ?thesis by simp
  qed
qed

lemma parse_mode_not_asset: "asset_key a \<noteq> ''parse_mode''"
  by (cases a) simp_all

lemma maybeFile_keeps_parse_mode:
  assumes "maybeFile E p a = Inr (t, p', w)"
  shows "map_of p' ''parse_mode'' = map_of p ''parse_mode''"
  using maybeFile_payload [OF assms] parse_mode_not_asset [of a]
  by (auto simp: map_of_delete)

lemma pget_Str: "map_of p k = Some v \<Longrightarrow> pget p k = v"
  by (simp add: pget_def)

text \<open>
  C3, as the code has it. A markdown or html node flushes and then stores the format mode
  in the payload under \<open>parse_mode\<close>. From then on every send carries it: a flush that
  returns keeps the entry, the form of an asset send contains the field \<open>parse_mode\<close>
  with that value (the form is built from every key of the payload), and a text send
  passes it as its \<open>parse_mode\<close> argument.
\<close>

theorem format_mode_reaches_every_send:
  "(ty \<in> {''markdown'', ''html''} \<and> render_node E (Segment ty a ch) s = Inr s1 \<longrightarrow>
      (\<exists>s0. sendBuffer E s = Inr s0
         \<and> s1 = s0\<lparr> payload :=
                     AList.update ''parse_mode''
                       (Str (if ty = ''markdown'' then ''MarkdownV2'' else ''html''))
                       (payload s0) \<rparr>))
   \<and> (map_of (payload s) ''parse_mode'' = Some (Str m) \<and> sendBuffer E s = Inr s' \<longrightarrow>
        map_of (payload s') ''parse_mode'' = Some (Str m)
      \<and> (assetType s \<noteq> None \<longrightarrow>
            (\<exists>ap fs fl. calls s' = calls s @ [AssetCall ap fs fl]
               \<and> map_of fs ''parse_mode'' = Some m))
      \<and> (assetType s = None \<and> truthy (pget (payload s) ''caption'') \<longrightarrow>
            (\<exists>tx rp. calls s' = calls s @ [TextCall (chat_id s) tx (Str m) rp])))"
proof (intro conjI impI; (elim conjE)?)
  assume ty: "ty \<in> {''markdown'', ''html''}"
    and r: "render_node E (Segment ty a ch) s = Inr s1"
  from r obtain s0 where f: "sendBuffer E s = Inr s0"
    by (cases "sendBuffer E s") (simp_all add: render_node_mode [OF ty])
  with r have "s1 = s0\<lparr> payload :=
                     AList.update ''parse_mode''
                       (Str (if ty = ''markdown'' then ''MarkdownV2'' else ''html''))
                       (payload s0) \<rparr>"
    by (simp add: render_node_mode [OF ty] pset_def)
  with f show "\<exists>s0. sendBuffer E s = Inr s0
         \<and> s1 = s0\<lparr> payload :=
                     AList.update ''parse_mode''
                       (Str (if ty = ''markdown'' then ''MarkdownV2'' else ''html''))
                       (payload s0) \<rparr>"
    by blast
next
  assume pm: "map_of (payload s) ''parse_mode'' = Some (Str m)"
    and f: "sendBuffer E s = Inr s'"
  from f show "map_of (payload s') ''parse_mode'' = Some (Str m)"
  proof (cases rule: sendBuffer_cases)
    case by_asset
    from by_asset(2) obtain a t p w where mf: "maybeFile E (payload s) a = Inr (t, p, w)"
      and p': "payload s' = AList.update ''caption'' (Str '''')
                 (AList.delete ''reply_to_message'' (AList.delete (asset_key a) p))"
      by (elim sendAsset_Inr) simp
    from maybeFile_keeps_parse_mode [OF mf] pm parse_mode_not_asset [of a] show ?thesis
      unfolding p' by (simp add: update_conv' map_of_delete)
  next
    case (by_text msg)
    with pm show ?thesis by (simp add: update_conv' map_of_delete)
  next
    case idle
    with pm show ?thesis by simp
  qed
next
  assume pm: "map_of (payload s) ''parse_mode'' = Some (Str m)"
    and f: "sendBuffer E s = Inr s'" and a: "assetType s \<noteq> None"
  from f a have "sendAsset E s = Inr s'" by (simp add: sendBuffer_def)
  then obtain a t p w fs where mf: "maybeFile E (payload s) a = Inr (t, p, w)"
    and ff: "form_fields p = Inr fs"
    and c: "calls s' = calls s @ [AssetCall (assetApi a) fs
               (form_file (fst t) (fst (snd t)) (snd (snd t)))]"
    by (elim sendAsset_Inr) simp
  from maybeFile_keeps_parse_mode [OF mf] pm have "map_of p ''parse_mode'' = Some (Str m)"
    by simp
  from form_fields_lookup [OF ff this] c
  show "\<exists>ap fs fl. calls s' = calls s @ [AssetCall ap fs fl]
               \<and> map_of fs ''parse_mode'' = Some m"
    by blast
next
  assume pm: "map_of (payload s) ''parse_mode'' = Some (Str m)"
    and f: "sendBuffer E s = Inr s'" and a: "assetType s = None"
    and t: "truthy (pget (payload s) ''caption'')"
  from f show "\<exists>tx rp. calls s' = calls s @ [TextCall (chat_id s) tx (Str m) rp]"
  proof (cases rule: sendBuffer_cases)
    case by_asset
    with a show ?thesis by simp
  next
    case (by_text msg)
    with pget_Str [OF pm] show ?thesis by simp
  next
    case idle
    with t show ?thesis by simp
  qed
qed

theorem format_mode_reaches_every_send_witness:
  "''markdown'' \<in> {''markdown'', ''html''}
   \<and> (\<exists>s1. render_node demo_env (Segment ''markdown'' Map.empty []) (new_sender ''7'') = Inr s1
          \<and> map_of (payload s1) ''parse_mode'' = Some (Str ''MarkdownV2''))
   \<and> map_of (payload markdown_photo_pending) ''parse_mode'' = Some (Str ''MarkdownV2'')
   \<and> assetType markdown_photo_pending \<noteq> None
   \<and> (\<exists>s' ap fs fl. sendBuffer demo_env markdown_photo_pending = Inr s'
          \<and> calls s' = calls markdown_photo_pending @ [AssetCall ap fs fl]
          \<and> map_of fs ''parse_mode'' = Some ''MarkdownV2''
          \<and> map_of (payload s') ''parse_mode'' = Some (Str ''MarkdownV2''))
   \<and> map_of (payload html_text_pending) ''parse_mode'' = Some (Str ''html'')
   \<and> assetType html_text_pending = None
   \<and> truthy (pget (payload html_text_pending) ''caption'')
   \<and> (\<exists>s' tx rp. sendBuffer demo_env html_text_pending = Inr s'
          \<and> calls s' = calls html_text_pending @ [TextCall ''7'' tx (Str ''html'') rp])"
proof -
  let ?n = "Segment ''markdown'' Map.empty []"
  have a1: "''markdown'' \<in> {''markdown'', ''html''}" by simp
  have "\<not> isl (render_node demo_env ?n (new_sender ''7''))" by code_simp
  then obtain s1 where r: "render_node demo_env ?n (new_sender ''7'') = Inr s1"
    by (cases "render_node demo_env ?n (new_sender ''7'')") auto
  from format_mode_reaches_every_send [where ty = "''markdown''" and E = demo_env
      and a = Map.empty and ch = "[]" and s = "new_sender ''7''" and ?s1.0 = s1] a1 r
  have "\<exists>s0. sendBuffer demo_env (new_sender ''7'') = Inr s0 \<and> s1 = s0\<lparr> payload :=
      AList.update ''parse_mode'' (Str ''MarkdownV2'') (payload s0) \<rparr>"
    by simp
  then obtain s0 where "s1 = s0\<lparr> payload :=
      AList.update ''parse_mode'' (Str ''MarkdownV2'') (payload s0) \<rparr>"
    by blast
  then have "map_of (payload s1) ''parse_mode'' = Some (Str ''MarkdownV2'')"
    by (simp add: update_conv')
  with r have a2: "\<exists>s1. render_node demo_env ?n (new_sender ''7'') = Inr s1
          \<and> map_of (payload s1) ''parse_mode'' = Some (Str ''MarkdownV2'')" by blast
  have b1: "map_of (payload markdown_photo_pending) ''parse_mode'' = Some (Str ''MarkdownV2'')"
    by code_simp
  have b2: "assetType markdown_photo_pending \<noteq> None"
    by (simp add: markdown_photo_pending_def pset_def)
  have "\<not> isl (sendBuffer demo_env markdown_photo_pending)" by code_simp
  then obtain s' where f: "sendBuffer demo_env markdown_photo_pending = Inr s'"
    by (cases "sendBuffer demo_env markdown_photo_pending") auto
  from format_mode_reaches_every_send [where E = demo_env and s = markdown_photo_pending
      and m = "''MarkdownV2''" and s' = s'] b1 b2 f
  have b3: "\<exists>s' ap fs fl. sendBuffer demo_env markdown_photo_pending = Inr s'
          \<and> calls s' = calls markdown_photo_pending @ [AssetCall ap fs fl]
          \<and> map_of fs ''parse_mode'' = Some ''MarkdownV2''
          \<and> map_of (payload s') ''parse_mode'' = Some (Str ''MarkdownV2'')"
    by blast
  have c1: "map_of (payload html_text_pending) ''parse_mode'' = Some (Str ''html'')"
    by code_simp
  have c2: "assetType html_text_pending = None"
    by (simp add: html_text_pending_def pset_def add_caption_def new_sender_def)
  have c3: "truthy (pget (payload html_text_pending) ''caption'')" by code_simp
  have c4: "chat_id html_text_pending = ''7''"
    by (simp add: html_text_pending_def pset_def add_caption_def new_sender_def)
  have "\<not> isl (sendBuffer demo_env html_text_pending)" by code_simp
  then obtain s'' where g: "sendBuffer demo_env html_text_pending = Inr s''"
    by (cases "sendBuffer demo_env html_text_pending") auto
  from format_mode_reaches_every_send [where E = demo_env and s = html_text_pending
      and m = "''html''" and s' = s''] c1 c2 c3 g
  have "\<exists>tx rp. calls s'' = calls html_text_pending
           @ [TextCall (chat_id html_text_pending) tx (Str ''html'') rp]"
    by blast
  with g c4 have c5: "\<exists>s' tx rp. sendBuffer demo_env html_text_pending = Inr s'
          \<and> calls s' = calls html_text_pending @ [TextCall ''7'' tx (Str ''html'') rp]"
    by auto
  show ?thesis by (intro conjI a1 a2 b1 b2 b3 c1 c2 c3 c5)
qed

text \<open>
  C3 as stated fails: after a markdown node the form of the photo send contains
  \<open>parse_mode\<close>; without the node it does not.
\<close>

theorem asset_send_carries_format_mode:
  "map_sum id calls (sendMessage demo_env markdown_photo (new_sender ''7''))
     = Inr [AssetCall ''sendPhoto''
              [(''chat_id'', ''7''), (''caption'', []), (''parse_mode'', ''MarkdownV2''),
               (''photo'', ''https://x/y.png'')] None]
   \<and> map_sum id calls (sendMessage demo_env (tl markdown_photo) (new_sender ''7''))
     = Inr [AssetCall ''sendPhoto''
              [(''chat_id'', ''7''), (''caption'', []), (''photo'', ''https://x/y.png'')] None]"
  by code_simp

section \<open>The reply-to identifier\<close>

lemma flush_keeps_reply_to:
  assumes "sendBuffer E s = Inr s'"
  shows "map_of (payload s') ''reply_to_message_id'' = map_of (payload s) ''reply_to_message_id''"
  using assms
proof (cases rule: sendBuffer_cases)
  case by_asset
  from by_asset(2) obtain a t p w where mf: "maybeFile E (payload s) a = Inr (t, p, w)"
    and p': "payload s' = AList.update ''caption'' (Str '''')
               (AList.delete ''reply_to_message'' (AList.delete (asset_key a) p))"
    by (elim sendAsset_Inr) simp
  have k: "asset_key a \<noteq> ''reply_to_message_id''" by (cases a) simp_all
  from maybeFile_payload [OF mf] k
  have "map_of p ''reply_to_message_id'' = map_of (payload s) ''reply_to_message_id''"
    by (auto simp: map_of_delete)
  with k show ?thesis unfolding p' by (simp add: update_conv' map_of_delete)
next
  case (by_text msg)
  then show ?thesis by (simp add: update_conv' map_of_delete)
next
  case idle
  then show ?thesis by simp
qed

text \<open>
  C1 fails on the code. A flush deletes the key \<open>reply_to_message\<close>, which is never set;
  the identifier is stored under \<open>reply_to_message_id\<close> and stays there. For a quote
  followed by text, an image and more text, the text send carries the identifier of the
  quote, and so does the photo send that follows it.
\<close>

theorem reply_to_survives_flush:
  "map_sum id calls (sendMessage demo_env quoted_text_photo (new_sender ''42''))
     = Inr [TextCall ''42'' (Str ''a'') Undefined (Str ''7''),
            AssetCall ''sendPhoto''
              [(''chat_id'', ''42''), (''caption'', ''b''), (''reply_to_message_id'', ''7''),
               (''photo'', ''https://x/y.png'')] None]"
  by code_simp

section \<open>The error collector\<close>

lemma sendBuffer_keeps_errors:
  assumes "sendBuffer E s = Inr s'"
  shows "errors s' = errors s"
  using assms
proof (cases rule: sendBuffer_cases)
  case by_asset
  from by_asset(2) show ?thesis by (elim sendAsset_Inr) simp
next
  case (by_text msg)
  then show ?thesis by simp
next
  case idle
  then show ?thesis by simp
qed

lemma render_keeps_errors:
  "(\<forall>s'. render E xs s = Inr s' \<longrightarrow> errors s' = errors s)"
  "(\<forall>s'. render_node E x s = Inr s' \<longrightarrow> errors s' = errors s)"
proof (induction E xs s and E x s rule: render_render_node.induct)
  case (1 E s)
  then show ?case by simp
next
  case (2 E x xs s)
  show ?case
  proof (intro allI impI)
    fix s' assume r: "render E (x # xs) s = Inr s'"
    from r obtain s1 where x: "render_node E x s = Inr s1" and xs: "render E xs s1 = Inr s'"
      by (simp split: sum.splits)
    from "2.IH"(1) x have "errors s1 = errors s" by blast
    with "2.IH"(2) [OF x] xs show "errors s' = errors s" by simp
  qed
next
  case (3 E ty a ch s)
  show ?case
  proof (intro allI impI)
    fix s' assume r: "render_node E (Segment ty a ch) s = Inr s'"
    show "errors s' = errors s"
    proof (cases ty rule: ty_cases)
      case cap
      with r show ?thesis
        by (elim insertE emptyE; hypsubst)
           (auto simp: render_node_text render_node_at render_node_sharp add_caption_def
                 split: option.splits)
    next
      case media
      from media_node_Inr [OF media r] obtain s1 t w where f: "sendBuffer E s = Inr s1"
        and s': "s' = s1\<lparr> assetType := Some t, warnings := warnings s1 @ w,
              payload := AList.update (asset_key t) (attr a ''url'') (payload s1) \<rparr>"
        by blast
      from sendBuffer_keeps_errors [OF f] s' show ?thesis by simp
    next
      case reply
      with r obtain s1 where f: "sendBuffer E s = Inr s1"
        and s': "s' = pset ''reply_to_message_id'' (attr a ''id'') s1"
        by (auto simp: render_node_quote split: sum.splits)
      from sendBuffer_keeps_errors [OF f] s' show ?thesis by (simp add: pset_def)
    next
      case msg
      with r obtain s1 where f: "sendBuffer E s = Inr s1"
        and s': "(a ''quote'' \<noteq> None \<and> s' = pset ''reply_to_message_id'' (attr a ''id'') s1)
           \<or> (a ''quote'' = None \<and> (\<exists>s2. render E ch s1 = Inr s2 \<and> sendBuffer E s2 = Inr s'))"
        by (auto simp: render_node_message split: sum.splits if_splits)
      have e1: "errors s1 = errors s" by (rule sendBuffer_keeps_errors [OF f])
      from s' show ?thesis
      proof (elim disjE conjE exE)
        assume "s' = pset ''reply_to_message_id'' (attr a ''id'') s1"
        with e1 show ?thesis by (simp add: pset_def)
      next
        fix s2 assume q: "a ''quote'' = None" and r2: "render E ch s1 = Inr s2"
          and f2: "sendBuffer E s2 = Inr s'"
        from "3.IH"(1) [of s1] msg f q r2 have "errors s2 = errors s1" by simp
        with sendBuffer_keeps_errors [OF f2] e1 show ?thesis by simp
      qed
    next
      case mode
      with r obtain s1 m where f: "sendBuffer E s = Inr s1"
        and s': "s' = pset ''parse_mode'' m s1"
        by (auto simp: render_node_mode split: sum.splits)
      from sendBuffer_keeps_errors [OF f] s' show ?thesis by (simp add: pset_def)
    next
      case other
      with r have "render E ch s = Inr s'" by (simp add: render_node_other)
      with "3.IH"(2) other show ?thesis by simp
    qed
  qed
qed

lemma send_never_aggregates:
  "send E content (new_sender c) =
     (case sendMessage E (parse E content) (new_sender c) of
        Inl e \<Rightarrow> Inl e
      | Inr s' \<Rightarrow> Inr (results s'))"
proof (cases "sendMessage E (parse E content) (new_sender c)")
  case (Inl e)
  then show ?thesis by (simp add: send_def)
next
  case (Inr s')
  then obtain s1 where r: "render E (parse E content) (new_sender c) = Inr s1"
    and f: "sendBuffer E s1 = Inr s'"
    by (auto simp: sendMessage_def split: sum.splits)
  from render_keeps_errors(1) r have "errors s1 = errors (new_sender c)" by blast
  with sendBuffer_keeps_errors [OF f] have "errors s' = []" by (simp add: new_sender_def)
  with Inr show ?thesis by (simp add: send_def)
qed

text \<open>
  C2 fails on the code. Nothing is ever added to \<open>errors\<close>, so the combined failure is
  never raised; a call that the API rejects makes \<open>send\<close> fail at once with that
  rejection. For a text followed by an image and an API that rejects the first call only,
  \<open>send\<close> returns the rejection of the text send and the photo send is never made; with
  an API that accepts, the same content gives two results.
\<close>

theorem api_failure_aborts_send:
  "send (demo_env\<lparr> api := reject_first, parse := \<lambda>content. text_then_photo \<rparr>) content
     (new_sender ''7'') = Inl (ApiError ''Bad Request'')
   \<and> send (demo_env\<lparr> parse := \<lambda>content. text_then_photo \<rparr>) content (new_sender ''7'')
     = Inr [Message 0, Message 1]"
  by code_simp

section \<open>Media nodes: flush, occupy, resolve\<close>

lemma form_fields_keys: "form_fields p = Inr fs \<Longrightarrow> map fst fs = map fst p"
proof (induction p arbitrary: fs)
  case Nil
  then show ?case by simp
next
  case (Cons kv p)
  obtain k v where kv: "kv = (k, v)" by (cases kv)
  from Cons.prems kv obtain x fs' where "form_fields p = Inr fs'" and fs: "fs = (k, x) # fs'"
    by (auto split: sum.splits)
  with Cons.IH kv show ?case by simp
qed

lemma form_fields_absent:
  assumes "form_fields p = Inr fs" "map_of p k = None"
  shows "map_of fs k = None"
proof -
  from assms(2) have "k \<notin> set (map fst p)" by (simp add: map_of_eq_None_iff)
  with form_fields_keys [OF assms(1)] have "k \<notin> set (map fst fs)" by simp
  then show ?thesis by (simp add: map_of_eq_None_iff)
qed

lemma asset_key_not_caption:
  "asset_key t \<noteq> ''caption''" "asset_key t \<noteq> ''reply_to_message''"
  by (cases t; simp)+

lemma flush_occupied:
  assumes "assetType q = Some tq" "sendBuffer E q = Inr q'"
  shows "\<exists>f c fn p w fs m. maybeFile E (payload q) tq = Inr ((f, c, fn), p, w)
     \<and> form_fields p = Inr fs
     \<and> calls q' = calls q @ [AssetCall (assetApi tq) fs (form_file f c fn)]
     \<and> results q' = results q @ [m]
     \<and> assetType q' = None
     \<and> payload q' = AList.update ''caption'' (Str [])
                      (AList.delete ''reply_to_message'' (AList.delete (asset_key tq) p))"
proof -
  from assms have "sendAsset E q = Inr q'" by (simp add: sendBuffer_def)
  then obtain a t p w fs m where a: "assetType q = Some a"
    and mf: "maybeFile E (payload q) a = Inr (t, p, w)"
    and ff: "form_fields p = Inr fs"
    and q': "q' = q\<lparr> results := results q @ [m],
             calls := calls q @ [AssetCall (assetApi a) fs (form_file (fst t) (fst (snd t)) (snd (snd t)))],
             warnings := warnings q @ w,
             assetType := None,
             payload := AList.update ''caption'' (Str '''')
                          (AList.delete ''reply_to_message'' (AList.delete (asset_key a) p)) \<rparr>"
    by (rule sendAsset_Inr)
  from a assms(1) have atq: "a = tq" by simp
  obtain f c fn where t: "t = (f, c, fn)" by (cases t)
  have 1: "maybeFile E (payload q) tq = Inr ((f, c, fn), p, w)" using mf atq t by simp
  have 2: "calls q' = calls q @ [AssetCall (assetApi tq) fs (form_file f c fn)]"
    using q' atq t by simp
  have 3: "results q' = results q @ [m]" using q' by simp
  have 4: "assetType q' = None" using q' by simp
  have 5: "payload q' = AList.update ''caption'' (Str [])
                      (AList.delete ''reply_to_message'' (AList.delete (asset_key tq) p))"
    using q' atq by simp
  from 1 ff 2 3 4 5 show ?thesis by blast
qed

lemma flush_clears_slot:
  assumes "payload q' = AList.update ''caption'' (Str [])
                      (AList.delete ''reply_to_message'' (AList.delete (asset_key tq) p))"
  shows "map_of (payload q') (asset_key tq) = None"
  unfolding assms using asset_key_not_caption [of tq]
  by (simp add: update_conv' delete_conv')

lemma maybeFile_file:
  assumes r: "pget p (asset_key field) = Str ref" "ref \<noteq> []"
    and "url_protocol E ref = Some ''file:''" "fileURLToPath E ref = Some path"
  shows "maybeFile E p field
             = Inr ((Some field, Some (ReadStream path), Some ''file''),
                    AList.delete (asset_key field) p, [])"
  using assms by (simp add: maybeFile_reference [OF r] resolve_content_def)

lemma maybeFile_base64:
  assumes r: "pget p (asset_key field) = Str ref" "ref \<noteq> []"
    and pr: "url_protocol E ref = Some ''base64:''"
    and form: "ref = pre @ ''://'' @ d" "CHR '':'' \<notin> set pre"
  shows "\<exists>fn w. maybeFile E p field
              = Inr ((Some field, Some (Buffer (from_base64 E (up_to ''://'' d))), Some fn),
                     AList.delete (asset_key field) p, w)"
proof -
  have "at_index (js_split ''://'' (pre @ ''://'' @ d)) 1 = Some (up_to ''://'' d)"
    using scheme_no_sep [OF form(2)] by (intro at_index_second) simp_all
  with form(1) have "resolve_content E p (asset_key field) ref ''base64:''
      = Inr (Some (Buffer (from_base64 E (up_to ''://'' d))), AList.delete (asset_key field) p)"
    by (simp add: resolve_content_def)
  with r pr show ?thesis
    by (intro maybeFile_decoded [where pr = "''base64:''"]) simp_all
qed

lemma maybeFile_data:
  assumes r: "pget p (asset_key field) = Str ref" "ref \<noteq> []"
    and pr: "url_protocol E ref = Some ''data:''"
    and form: "ref = pre @ ''base64,'' @ d" "\<not> sublist ''base64,'' (pre @ ''base64'')"
  shows "\<exists>fn w. maybeFile E p field
              = Inr ((Some field, Some (Buffer (from_base64 E (up_to ''base64,'' d))), Some fn),
                     AList.delete (asset_key field) p, w)"
proof -
  have "at_index (js_split ''base64,'' (pre @ ''base64,'' @ d)) 1 = Some (up_to ''base64,'' d)"
    using form(2) by (intro at_index_second) simp_all
  with form(1) have "resolve_content E p (asset_key field) ref ''data:''
      = Inr (Some (Buffer (from_base64 E (up_to ''base64,'' d))), AList.delete (asset_key field) p)"
    by (simp add: resolve_content_def)
  with r pr show ?thesis
    by (intro maybeFile_decoded [where pr = "''data:''"]) simp_all
qed

lemma maybeFile_other:
  assumes r: "pget p (asset_key field) = Str ref" "ref \<noteq> []"
    and "url_protocol E ref = Some pr" "pr \<notin> {''file:'', ''base64:'', ''data:''}"
  shows "maybeFile E p field = Inr ((Some field, None, Some ''file''), p, [])"
  using assms by (simp add: maybeFile_reference [OF r] resolve_content_def)

lemma pget_Str_map_of: "pget p k = Str ref \<Longrightarrow> map_of p k = Some (Str ref)"
  by (cases "map_of p k") (simp_all add: pget_def)

text \<open>A flush of an occupied slot whose reference resolves to content.\<close>

lemma flush_with_content:
  assumes slot: "assetType q = Some tq" and f: "sendBuffer E q = Inr q'"
    and mf: "\<exists>fn w. maybeFile E (payload q) tq
               = Inr ((Some tq, Some c, Some fn), AList.delete (asset_key tq) (payload q), w)"
  shows "\<exists>fs fn. calls q' = calls q @ [AssetCall (assetApi tq) fs (Some (asset_key tq, c, Some fn))]
            \<and> map_of fs (asset_key tq) = None"
proof -
  from flush_occupied [OF slot f] obtain f0 c0 fn0 p w fs m
    where m0: "maybeFile E (payload q) tq = Inr ((f0, c0, fn0), p, w)"
      and ff: "form_fields p = Inr fs"
      and cl: "calls q' = calls q @ [AssetCall (assetApi tq) fs (form_file f0 c0 fn0)]"
    by blast
  from mf obtain fn w' where "maybeFile E (payload q) tq
       = Inr ((Some tq, Some c, Some fn), AList.delete (asset_key tq) (payload q), w')"
    by blast
  with m0 have e: "f0 = Some tq" "c0 = Some c" "fn0 = Some fn"
    "p = AList.delete (asset_key tq) (payload q)" by simp_all
  have "map_of p (asset_key tq) = None" unfolding e by (simp add: delete_conv')
  from form_fields_absent [OF ff this] have "map_of fs (asset_key tq) = None" .
  moreover from cl e have "calls q' = calls q @ [AssetCall (assetApi tq) fs (Some (asset_key tq, c, Some fn))]"
    by (simp add: form_file_def)
  ultimately show ?thesis by blast
qed

lemma flush_passthrough:
  assumes slot: "assetType q = Some tq" and f: "sendBuffer E q = Inr q'"
    and r: "pget (payload q) (asset_key tq) = Str ref" "ref \<noteq> []"
    and pr: "url_protocol E ref = Some pr" "pr \<notin> {''file:'', ''base64:'', ''data:''}"
  shows "\<exists>fs. calls q' = calls q @ [AssetCall (assetApi tq) fs None]
            \<and> map_of fs (asset_key tq) = Some ref"
proof -
  from flush_occupied [OF slot f] obtain f0 c0 fn0 p w fs m
    where m0: "maybeFile E (payload q) tq = Inr ((f0, c0, fn0), p, w)"
      and ff: "form_fields p = Inr fs"
      and cl: "calls q' = calls q @ [AssetCall (assetApi tq) fs (form_file f0 c0 fn0)]"
    by blast
  from maybeFile_other [OF r pr] m0 have e: "c0 = None" "p = payload q" by simp_all
  from form_fields_lookup [OF ff] pget_Str_map_of [OF r(1)] e(2)
  have "map_of fs (asset_key tq) = Some ref" by simp
  moreover from cl e have "calls q' = calls q @ [AssetCall (assetApi tq) fs None]"
    by (simp add: form_file_def split: option.splits)
  ultimately show ?thesis by blast
qed

lemma flush_invalid_url:
  assumes slot: "assetType q = Some tq"
    and r: "pget (payload q) (asset_key tq) = Str ref" "ref \<noteq> []"
    and pr: "url_protocol E ref = None"
  shows "sendBuffer E q = Inl (TypeError ''Invalid URL'')"
proof -
  from pr have "maybeFile E (payload q) tq = Inl (TypeError ''Invalid URL'')"
    by (simp add: maybeFile_reference [OF r])
  from sendAsset_maybeFile_Inl [OF slot this] slot show ?thesis by (simp add: sendBuffer_def)
qed

lemma select_asset_frame:
  assumes "ty \<in> {''image'', ''audio'', ''video'', ''file''}"
    and "ty = ''image'' \<longrightarrow> isGif E' u = isGif E u"
  shows "select_asset E' ty u = select_asset E ty u"
  using assms
  by (elim insertE emptyE; hypsubst) (simp_all add: select_asset_image select_asset_others)


text \<open>
  C4. For an image, audio, video or file node the renderer flushes the pending payload
  first and then occupies the attachment slot.

  The flush comes first: whenever the node returns, the flush returned some sender. If
  a slot was occupied, the flush made exactly one asset call for it and removed the slot
  from the payload; if only a caption was pending, it made the text call; if nothing was
  pending, it changed nothing. The result of the node is that sender with the asset type
  set and the url attribute stored, as it is, under the slot's key. An image takes the
  animation slot when \<open>isGif\<close> answers true and the photo slot otherwise, a file the
  document slot, audio and video the slot of their name. Occupying makes no call: the
  calls and results are those of the flush. The node fails only when the flush fails or,
  for an image, when \<open>isGif\<close> throws.

  The reference is resolved by the flush of the occupied slot, which holds for the flush
  before occupying and for the one after it alike. That flush makes one asset call and
  clears the slot. For a \<open>file:\<close> reference the call carries a read stream on the local
  path, for a \<open>base64:\<close> or \<open>data:\<close> reference the buffer of the decoded text, and in
  these cases the form has no field of the slot's name; for any other protocol the call
  carries no content and the form holds the reference as a string. A reference that is
  no URL makes this flush throw, not the node that stored it.

  What is looked at while occupying: the node depends on the imported functions only
  through the flush and, for an image, through \<open>isGif\<close>. So audio, video and file nodes
  never look at the bytes of their reference. An image node does: for a \<open>base64:\<close> or
  \<open>data:\<close> reference \<open>isGif\<close> decodes and sniffs the bytes, to choose between animation
  and photo. These bytes are not kept; the slot holds the reference, and the content that
  is sent is decoded from it by the flush.
\<close>

theorem media_node_flushes_then_occupies:
  assumes ty: "ty \<in> {''image'', ''audio'', ''video'', ''file''}"
  shows
   "(\<forall>s'. render_node E (Segment ty a ch) s = Inr s' \<longrightarrow>
       (\<exists>s1 t w. sendBuffer E s = Inr s1
          \<and> s' = s1\<lparr> assetType := Some t, warnings := warnings s1 @ w,
                    payload := AList.update (asset_key t) (attr a ''url'') (payload s1) \<rparr>
          \<and> (ty = ''image'' \<longrightarrow>
                isGif E (attr a ''url'') = Inr (t = Animation, w)
                \<and> (t = Animation \<or> t = Photo))
          \<and> (ty = ''file'' \<longrightarrow> t = Document)
          \<and> (ty = ''audio'' \<longrightarrow> t = Audio)
          \<and> (ty = ''video'' \<longrightarrow> t = Video)
          \<and> pget (payload s') (asset_key t) = attr a ''url''
          \<and> calls s' = calls s1 \<and> results s' = results s1
          \<and> sendBuffer E s' = sendAsset E s'
          \<and> (\<forall>t0. assetType s = Some t0 \<longrightarrow>
                (\<exists>fs fl. calls s1 = calls s @ [AssetCall (assetApi t0) fs fl])
                \<and> map_of (payload s1) (asset_key t0) = None)
          \<and> (assetType s = None \<and> truthy (pget (payload s) ''caption'') \<longrightarrow>
                calls s1 = calls s @
                  [TextCall (chat_id s) (pget (payload s) ''caption'')
                     (pget (payload s) ''parse_mode'') (pget (payload s) ''reply_to_message_id'')])
          \<and> (assetType s = None \<and> \<not> truthy (pget (payload s) ''caption'') \<longrightarrow> s1 = s)
          \<and> assetType s1 = None))
    \<and> (\<forall>e. render_node E (Segment ty a ch) s = Inl e \<longrightarrow>
         sendBuffer E s = Inl e \<or> (ty = ''image'' \<and> isGif E (attr a ''url'') = Inl e))
    \<and> (assetType q = Some tq \<and> sendBuffer E q = Inr q' \<longrightarrow>
         (\<exists>fs fl. calls q' = calls q @ [AssetCall (assetApi tq) fs fl])
         \<and> length (results q') = Suc (length (results q))
         \<and> assetType q' = None
         \<and> map_of (payload q') (asset_key tq) = None)
    \<and> (assetType q = Some tq \<and> sendBuffer E q = Inr q'
         \<and> pget (payload q) (asset_key tq) = Str ref \<and> ref \<noteq> []
         \<and> url_protocol E ref = Some ''file:'' \<and> fileURLToPath E ref = Some path \<longrightarrow>
         (\<exists>fs fn. calls q' = calls q @
              [AssetCall (assetApi tq) fs (Some (asset_key tq, ReadStream path, Some fn))]
            \<and> map_of fs (asset_key tq) = None))
    \<and> (assetType q = Some tq \<and> sendBuffer E q = Inr q'
         \<and> pget (payload q) (asset_key tq) = Str ref \<and> ref \<noteq> []
         \<and> url_protocol E ref = Some ''base64:'' \<and> ref = pre @ ''://'' @ d
         \<and> CHR '':'' \<notin> set pre \<longrightarrow>
         (\<exists>fs fn. calls q' = calls q @
              [AssetCall (assetApi tq) fs
                 (Some (asset_key tq, Buffer (from_base64 E (up_to ''://'' d)), Some fn))]
            \<and> map_of fs (asset_key tq) = None))
    \<and> (assetType q = Some tq \<and> sendBuffer E q = Inr q'
         \<and> pget (payload q) (asset_key tq) = Str ref \<and> ref \<noteq> []
         \<and> url_protocol E ref = Some ''data:'' \<and> ref = pre' @ ''base64,'' @ d'
         \<and> \<not> sublist ''base64,'' (pre' @ ''base64'') \<longrightarrow>
         (\<exists>fs fn. calls q' = calls q @
              [AssetCall (assetApi tq) fs
                 (Some (asset_key tq, Buffer (from_base64 E (up_to ''base64,'' d')), Some fn))]
            \<and> map_of fs (asset_key tq) = None))
    \<and> (assetType q = Some tq \<and> sendBuffer E q = Inr q'
         \<and> pget (payload q) (asset_key tq) = Str ref \<and> ref \<noteq> []
         \<and> url_protocol E ref = Some pr \<and> pr \<notin> {''file:'', ''base64:'', ''data:''} \<longrightarrow>
         (\<exists>fs. calls q' = calls q @ [AssetCall (assetApi tq) fs None]
            \<and> map_of fs (asset_key tq) = Some ref))
    \<and> (assetType q = Some tq \<and> pget (payload q) (asset_key tq) = Str ref \<and> ref \<noteq> []
         \<and> url_protocol E ref = None \<longrightarrow>
         sendBuffer E q = Inl (TypeError ''Invalid URL''))
    \<and> (sendBuffer E' s = sendBuffer E s
         \<and> (ty = ''image'' \<longrightarrow> isGif E' (attr a ''url'') = isGif E (attr a ''url'')) \<longrightarrow>
         render_node E' (Segment ty a ch) s = render_node E (Segment ty a ch) s)"
proof -
  have A: "\<exists>s1 t w. sendBuffer E s = Inr s1
          \<and> s' = s1\<lparr> assetType := Some t, warnings := warnings s1 @ w,
                    payload := AList.update (asset_key t) (attr a ''url'') (payload s1) \<rparr>
          \<and> (ty = ''image'' \<longrightarrow>
                isGif E (attr a ''url'') = Inr (t = Animation, w)
                \<and> (t = Animation \<or> t = Photo))
          \<and> (ty = ''file'' \<longrightarrow> t = Document)
          \<and> (ty = ''audio'' \<longrightarrow> t = Audio)
          \<and> (ty = ''video'' \<longrightarrow> t = Video)
          \<and> pget (payload s') (asset_key t) = attr a ''url''
          \<and> calls s' = calls s1 \<and> results s' = results s1
          \<and> sendBuffer E s' = sendAsset E s'
          \<and> (\<forall>t0. assetType s = Some t0 \<longrightarrow>
                (\<exists>fs fl. calls s1 = calls s @ [AssetCall (assetApi t0) fs fl])
                \<and> map_of (payload s1) (asset_key t0) = None)
          \<and> (assetType s = None \<and> truthy (pget (payload s) ''caption'') \<longrightarrow>
                calls s1 = calls s @
                  [TextCall (chat_id s) (pget (payload s) ''caption'')
                     (pget (payload s) ''parse_mode'') (pget (payload s) ''reply_to_message_id'')])
          \<and> (assetType s = None \<and> \<not> truthy (pget (payload s) ''caption'') \<longrightarrow> s1 = s)
          \<and> assetType s1 = None"
    if r: "render_node E (Segment ty a ch) s = Inr s'" for s'
  proof -
    from media_node_Inr [OF ty r] obtain s1 t w where f: "sendBuffer E s = Inr s1"
      and c: "select_asset E ty (attr a ''url'') = Inr (t, w)"
      and s': "s' = s1\<lparr> assetType := Some t, warnings := warnings s1 @ w,
                payload := AList.update (asset_key t) (attr a ''url'') (payload s1) \<rparr>"
      by blast
    have img: "ty = ''image'' \<longrightarrow>
        isGif E (attr a ''url'') = Inr (t = Animation, w) \<and> (t = Animation \<or> t = Photo)"
    proof
      assume "ty = ''image''"
      with c have "select_asset E ''image'' (attr a ''url'') = Inr (t, w)" by simp
      then show "isGif E (attr a ''url'') = Inr (t = Animation, w) \<and> (t = Animation \<or> t = Photo)"
        by (rule select_asset_image_Inr)
    qed
    have rest: "ty = ''file'' \<longrightarrow> t = Document" "ty = ''audio'' \<longrightarrow> t = Audio"
      "ty = ''video'' \<longrightarrow> t = Video"
      using c by (auto simp: select_asset_others)
    have raw: "pget (payload s') (asset_key t) = attr a ''url''"
      unfolding s' by (simp add: pget_update)
    have same: "calls s' = calls s1" "results s' = results s1"
      unfolding s' by simp_all
    have nxt: "sendBuffer E s' = sendAsset E s'"
      by (rule sendBuffer_asset [of _ t]) (simp add: s')
    have pend: "\<forall>t0. assetType s = Some t0 \<longrightarrow>
                (\<exists>fs fl. calls s1 = calls s @ [AssetCall (assetApi t0) fs fl])
                \<and> map_of (payload s1) (asset_key t0) = None"
    proof (intro allI impI)
      fix t0 assume t0: "assetType s = Some t0"
      from flush_occupied [OF t0 f] obtain f0 c0 fn0 p w0 fs m
        where cl: "calls s1 = calls s @ [AssetCall (assetApi t0) fs (form_file f0 c0 fn0)]"
          and pl: "payload s1 = AList.update ''caption'' (Str [])
                      (AList.delete ''reply_to_message'' (AList.delete (asset_key t0) p))"
        by blast
      from cl flush_clears_slot [OF pl]
      show "(\<exists>fs fl. calls s1 = calls s @ [AssetCall (assetApi t0) fs fl])
                \<and> map_of (payload s1) (asset_key t0) = None"
        by blast
    qed
    have tcall: "assetType s = None \<and> truthy (pget (payload s) ''caption'') \<longrightarrow>
                calls s1 = calls s @
                  [TextCall (chat_id s) (pget (payload s) ''caption'')
                     (pget (payload s) ''parse_mode'') (pget (payload s) ''reply_to_message_id'')]"
      using f by (cases rule: sendBuffer_cases) auto
    have idle: "assetType s = None \<and> \<not> truthy (pget (payload s) ''caption'') \<longrightarrow> s1 = s"
      using f by (cases rule: sendBuffer_cases) auto
    have none: "assetType s1 = None"
      using f
    proof (cases rule: sendBuffer_cases)
      case by_asset
      then obtain t0 where "assetType s = Some t0" by (cases "assetType s") simp_all
      from flush_occupied [OF this f] show ?thesis by blast
    next
      case (by_text m)
      then show ?thesis by simp
    next
      case idle
      then show ?thesis by simp
    qed
    from f s' img rest raw same nxt pend tcall idle none show ?thesis by blast
  qed
  have B: "sendBuffer E s = Inl e \<or> (ty = ''image'' \<and> isGif E (attr a ''url'') = Inl e)"
    if "render_node E (Segment ty a ch) s = Inl e" for e
    using ty that by (rule media_node_Inl)
  have C0: "(\<exists>fs fl. calls q' = calls q @ [AssetCall (assetApi tq) fs fl])
         \<and> length (results q') = Suc (length (results q))
         \<and> assetType q' = None
         \<and> map_of (payload q') (asset_key tq) = None"
    if "assetType q = Some tq" "sendBuffer E q = Inr q'"
  proof -
    from flush_occupied [OF that] obtain f0 c0 fn0 p w0 fs m
      where cl: "calls q' = calls q @ [AssetCall (assetApi tq) fs (form_file f0 c0 fn0)]"
        and rs: "results q' = results q @ [m]" and at: "assetType q' = None"
        and pl: "payload q' = AList.update ''caption'' (Str [])
                    (AList.delete ''reply_to_message'' (AList.delete (asset_key tq) p))"
      by blast
    from rs have "length (results q') = Suc (length (results q))" by simp
    with cl at flush_clears_slot [OF pl] show ?thesis by blast
  qed
  have C1: "\<exists>fs fn. calls q' = calls q @
              [AssetCall (assetApi tq) fs (Some (asset_key tq, ReadStream path, Some fn))]
            \<and> map_of fs (asset_key tq) = None"
    if "assetType q = Some tq" "sendBuffer E q = Inr q'"
      "pget (payload q) (asset_key tq) = Str ref" "ref \<noteq> []"
      "url_protocol E ref = Some ''file:''" "fileURLToPath E ref = Some path"
  proof -
    from maybeFile_file [OF that(3-6)]
    have "\<exists>fn w. maybeFile E (payload q) tq
            = Inr ((Some tq, Some (ReadStream path), Some fn),
                   AList.delete (asset_key tq) (payload q), w)" by blast
    from flush_with_content [OF that(1,2) this] show ?thesis .
  qed
  have C2: "\<exists>fs fn. calls q' = calls q @
              [AssetCall (assetApi tq) fs
                 (Some (asset_key tq, Buffer (from_base64 E (up_to ''://'' d)), Some fn))]
            \<and> map_of fs (asset_key tq) = None"
    if "assetType q = Some tq" "sendBuffer E q = Inr q'"
      "pget (payload q) (asset_key tq) = Str ref" "ref \<noteq> []"
      "url_protocol E ref = Some ''base64:''" "ref = pre @ ''://'' @ d"
      "CHR '':'' \<notin> set pre"
    using flush_with_content [OF that(1,2) maybeFile_base64 [OF that(3-7)]] .
  have C3: "\<exists>fs fn. calls q' = calls q @
              [AssetCall (assetApi tq) fs
                 (Some (asset_key tq, Buffer (from_base64 E (up_to ''base64,'' d')), Some fn))]
            \<and> map_of fs (asset_key tq) = None"
    if "assetType q = Some tq" "sendBuffer E q = Inr q'"
      "pget (payload q) (asset_key tq) = Str ref" "ref \<noteq> []"
      "url_protocol E ref = Some ''data:''" "ref = pre' @ ''base64,'' @ d'"
      "\<not> sublist ''base64,'' (pre' @ ''base64'')"
    using flush_with_content [OF that(1,2) maybeFile_data [OF that(3-7)]] .
  have C4: "\<exists>fs. calls q' = calls q @ [AssetCall (assetApi tq) fs None]
            \<and> map_of fs (asset_key tq) = Some ref"
    if "assetType q = Some tq" "sendBuffer E q = Inr q'"
      "pget (payload q) (asset_key tq) = Str ref" "ref \<noteq> []"
      "url_protocol E ref = Some pr" "pr \<notin> {''file:'', ''base64:'', ''data:''}"
    using that by (rule flush_passthrough)
  have C5: "sendBuffer E q = Inl (TypeError ''Invalid URL'')"
    if "assetType q = Some tq" "pget (payload q) (asset_key tq) = Str ref" "ref \<noteq> []"
      "url_protocol E ref = None"
    using that by (rule flush_invalid_url)
  have D: "render_node E' (Segment ty a ch) s = render_node E (Segment ty a ch) s"
    if "sendBuffer E' s = sendBuffer E s"
      "ty = ''image'' \<longrightarrow> isGif E' (attr a ''url'') = isGif E (attr a ''url'')"
    by (simp only: render_node_media [OF ty] that(1) select_asset_frame [OF ty that(2)])
  show ?thesis
    apply (intro conjI allI impI)
    subgoal for s' by (rule A)
    subgoal for e by (rule B)
    subgoal by (elim conjE, drule (1) C0) blast
    subgoal by (elim conjE, drule (1) C0) blast
    subgoal by (elim conjE, drule (1) C0) blast
    subgoal by (elim conjE, drule (1) C0) blast
    subgoal by (elim conjE, erule (5) C1)
    subgoal by (elim conjE, erule (6) C2)
    subgoal by (elim conjE, erule (6) C3)
    subgoal by (elim conjE, erule (5) C4)
    subgoal by (elim conjE, erule (3) C5)
    subgoal by (elim conjE, erule (1) D)
    done
qed

theorem media_node_flushes_then_occupies_witness:
  "''image'' \<in> {''image'', ''audio'', ''video'', ''file''}
   \<and> assetType photo_pending = Some Photo
   \<and> (\<exists>s' s''. render_node demo_env gif_image photo_pending = Inr s'
          \<and> calls s' =
               [AssetCall ''sendPhoto''
                  [(''chat_id'', ''7''), (''caption'', ''hi''), (''photo'', ''https://x/y.png'')]
                  None]
          \<and> map_of (payload s') ''photo'' = None
          \<and> assetType s' = Some Animation
          \<and> pget (payload s') ''animation'' = Str ''base64://R0lGODlh''
          \<and> sendBuffer demo_env s' = Inr s''
          \<and> (\<exists>fs fn. calls s'' = calls s' @
                 [AssetCall ''sendAnimation'' fs (Some (''animation'', Buffer ''GIF89a'', Some fn))]
                 \<and> map_of fs ''animation'' = None)
          \<and> assetType s'' = None \<and> map_of (payload s'') ''animation'' = None)
   \<and> (\<exists>s'. render_node demo_env gif_image (add_caption ''hi'' (new_sender ''7'')) = Inr s'
          \<and> assetType s' = Some Animation
          \<and> pget (payload s') ''animation'' = Str ''base64://R0lGODlh''
          \<and> calls s' = [TextCall ''7'' (Str ''hi'') Undefined Undefined])
   \<and> ''audio'' \<in> {''image'', ''audio'', ''video'', ''file''}
   \<and> url_protocol demo_env ''no reference'' = None
   \<and> (\<exists>s'. render_node demo_env (Segment ''audio'' [''url'' \<mapsto> ''no reference''] [])
               (new_sender ''7'') = Inr s'
          \<and> assetType s' = Some Audio
          \<and> sendBuffer demo_env s' = Inl (TypeError ''Invalid URL''))
   \<and> render_node (demo_env\<lparr>from_base64 := \<lambda>t. [], fromBuffer := \<lambda>b. None\<rparr>)
         (Segment ''audio'' [''url'' \<mapsto> ''base64://R0lGODlh''] []) (new_sender ''7'')
       = render_node demo_env
         (Segment ''audio'' [''url'' \<mapsto> ''base64://R0lGODlh''] []) (new_sender ''7'')"
proof -
  let ?a = "[''url'' \<mapsto> ''base64://R0lGODlh'']"
  let ?n = "Segment ''image'' ?a []"
  let ?ref = "''base64://R0lGODlh''"
  have ty: "''image'' \<in> {''image'', ''audio'', ''video'', ''file''}" by simp
  have u: "attr ?a ''url'' = Str ?ref" by (simp add: attr_def)
  have g: "isGif demo_env (attr ?a ''url'') = Inr (True, [])" by code_simp
  \<comment> \<open>a pending photo is sent, then the animation slot is occupied\<close>
  have pp: "assetType photo_pending = Some Photo"
    by (simp add: photo_pending_def pset_def)
  have "\<not> isl (render_node demo_env ?n photo_pending)" by code_simp
  then obtain s' where r: "render_node demo_env ?n photo_pending = Inr s'"
    by (cases "render_node demo_env ?n photo_pending") auto
  have c: "map_sum id calls (render_node demo_env ?n photo_pending)
             = Inr [AssetCall ''sendPhoto''
                  [(''chat_id'', ''7''), (''caption'', ''hi''), (''photo'', ''https://x/y.png'')]
                  None]" by code_simp
  have S: "map_of (payload s') ''photo'' = None \<and> assetType s' = Some Animation
      \<and> pget (payload s') ''animation'' = Str ?ref"
    using media_node_flushes_then_occupies [OF ty, where E = demo_env and a = ?a
        and ch = "[]" and s = photo_pending, THEN conjunct1, rule_format, OF r]
  proof (elim exE conjE)
    fix s1 t w
    assume s'eq: "s' = s1\<lparr> assetType := Some t, warnings := warnings s1 @ w,
                    payload := AList.update (asset_key t) (attr ?a ''url'') (payload s1) \<rparr>"
      and t: "''image'' = ''image'' \<longrightarrow>
                isGif demo_env (attr ?a ''url'') = Inr (t = Animation, w)
                \<and> (t = Animation \<or> t = Photo)"
      and raw: "pget (payload s') (asset_key t) = attr ?a ''url''"
      and pend: "\<forall>t0. assetType photo_pending = Some t0 \<longrightarrow>
                (\<exists>fs fl. calls s1 = calls photo_pending @ [AssetCall (assetApi t0) fs fl])
                \<and> map_of (payload s1) (asset_key t0) = None"
    from t g have tA: "t = Animation" by simp
    from pend pp have "map_of (payload s1) (asset_key Photo) = None" by blast
    with s'eq tA have a1: "map_of (payload s') ''photo'' = None" by (simp add: update_conv')
    from s'eq tA have a2: "assetType s' = Some Animation" by simp
    from raw tA u have a3: "pget (payload s') ''animation'' = Str ?ref" by simp
    from a1 a2 a3 show ?thesis by blast
  qed
  then have a1: "map_of (payload s') ''photo'' = None" and a2: "assetType s' = Some Animation"
    and a3: "pget (payload s') ''animation'' = Str ?ref" by blast+
  from c r have a4: "calls s' = [AssetCall ''sendPhoto''
                  [(''chat_id'', ''7''), (''caption'', ''hi''), (''photo'', ''https://x/y.png'')]
                  None]" by simp
  \<comment> \<open>the flush that follows decodes the reference and sends the bytes\<close>
  have "\<not> isl (sendBuffer demo_env (projr (render_node demo_env ?n photo_pending)))"
    by code_simp
  with r obtain s'' where f2: "sendBuffer demo_env s' = Inr s''"
    by (cases "sendBuffer demo_env s'") auto
  have b1: "url_protocol demo_env ?ref = Some ''base64:''" by code_simp
  have b2: "?ref = ''base64'' @ ''://'' @ ''R0lGODlh''" by simp
  have b3: "CHR '':'' \<notin> set ''base64''" by simp
  have b4: "from_base64 demo_env (up_to ''://'' ''R0lGODlh'') = ''GIF89a''" by code_simp
  have b5: "?ref \<noteq> []" by simp
  have a3': "pget (payload s') (asset_key Animation) = Str ?ref" using a3 by simp
  from media_node_flushes_then_occupies [OF ty, where E = demo_env and q = s' and q' = s''
      and tq = Animation and ref = ?ref and pre = "''base64''" and d = "''R0lGODlh''",
      THEN conjunct2, THEN conjunct2, THEN conjunct2, THEN conjunct2, THEN conjunct1]
    a2 f2 a3' b1 b2 b3 b5
  have "\<exists>fs fn. calls s'' = calls s' @
              [AssetCall (assetApi Animation) fs
                 (Some (asset_key Animation,
                        Buffer (from_base64 demo_env (up_to ''://'' ''R0lGODlh'')), Some fn))]
            \<and> map_of fs (asset_key Animation) = None"
    by blast
  then have a5: "\<exists>fs fn. calls s'' = calls s' @
                 [AssetCall ''sendAnimation'' fs (Some (''animation'', Buffer ''GIF89a'', Some fn))]
                 \<and> map_of fs ''animation'' = None"
    unfolding b4 by simp
  from media_node_flushes_then_occupies [OF ty, where E = demo_env and q = s' and q' = s''
      and tq = Animation, THEN conjunct2, THEN conjunct2, THEN conjunct1] a2 f2
  have a6: "assetType s'' = None" "map_of (payload s'') ''animation'' = None" by auto
  from r a4 a1 a2 a3 f2 a5 a6
  have A: "\<exists>s' s''. render_node demo_env gif_image photo_pending = Inr s'
          \<and> calls s' =
               [AssetCall ''sendPhoto''
                  [(''chat_id'', ''7''), (''caption'', ''hi''), (''photo'', ''https://x/y.png'')]
                  None]
          \<and> map_of (payload s') ''photo'' = None
          \<and> assetType s' = Some Animation
          \<and> pget (payload s') ''animation'' = Str ''base64://R0lGODlh''
          \<and> sendBuffer demo_env s' = Inr s''
          \<and> (\<exists>fs fn. calls s'' = calls s' @
                 [AssetCall ''sendAnimation'' fs (Some (''animation'', Buffer ''GIF89a'', Some fn))]
                 \<and> map_of fs ''animation'' = None)
          \<and> assetType s'' = None \<and> map_of (payload s'') ''animation'' = None"
    unfolding gif_image_def by blast
  \<comment> \<open>a pending caption is sent as text\<close>
  let ?s = "add_caption ''hi'' (new_sender ''7'')"
  have "\<not> isl (render_node demo_env ?n ?s)" by code_simp
  then obtain z where rz: "render_node demo_env ?n ?s = Inr z"
    by (cases "render_node demo_env ?n ?s") auto
  have cz: "map_sum id calls (sendBuffer demo_env ?s)
             = Inr [TextCall ''7'' (Str ''hi'') Undefined Undefined]" by code_simp
  have Z: "assetType z = Some Animation \<and> pget (payload z) ''animation'' = Str ?ref
      \<and> calls z = [TextCall ''7'' (Str ''hi'') Undefined Undefined]"
    using media_node_flushes_then_occupies [OF ty, where E = demo_env and a = ?a
        and ch = "[]" and s = ?s, THEN conjunct1, rule_format, OF rz]
  proof (elim exE conjE)
    fix z1 tz wz
    assume fz: "sendBuffer demo_env ?s = Inr z1"
      and zeq: "z = z1\<lparr> assetType := Some tz, warnings := warnings z1 @ wz,
                    payload := AList.update (asset_key tz) (attr ?a ''url'') (payload z1) \<rparr>"
      and tz: "''image'' = ''image'' \<longrightarrow>
                isGif demo_env (attr ?a ''url'') = Inr (tz = Animation, wz)
                \<and> (tz = Animation \<or> tz = Photo)"
      and pz: "pget (payload z) (asset_key tz) = attr ?a ''url''"
      and kz: "calls z = calls z1"
    from tz g have tzA: "tz = Animation" by simp
    from zeq tzA have z1': "assetType z = Some Animation" by simp
    from pz tzA u have z2: "pget (payload z) ''animation'' = Str ?ref" by simp
    from cz fz kz have z3: "calls z = [TextCall ''7'' (Str ''hi'') Undefined Undefined]" by simp
    from z1' z2 z3 show ?thesis by blast
  qed
  with rz
  have B: "\<exists>s'. render_node demo_env gif_image (add_caption ''hi'' (new_sender ''7'')) = Inr s'
          \<and> assetType s' = Some Animation
          \<and> pget (payload s') ''animation'' = Str ''base64://R0lGODlh''
          \<and> calls s' = [TextCall ''7'' (Str ''hi'') Undefined Undefined]"
    unfolding gif_image_def by blast
  \<comment> \<open>an audio node takes a reference that is no URL; the flush is where it fails\<close>
  let ?b = "[''url'' \<mapsto> ''no reference'']"
  let ?m = "Segment ''audio'' ?b []"
  have ty2: "''audio'' \<in> {''image'', ''audio'', ''video'', ''file''}" by simp
  have d1: "url_protocol demo_env ''no reference'' = None" by code_simp
  have "\<not> isl (render_node demo_env ?m (new_sender ''7''))" by code_simp
  then obtain y where ry: "render_node demo_env ?m (new_sender ''7'') = Inr y"
    by (cases "render_node demo_env ?m (new_sender ''7'')") auto
  have Y: "assetType y = Some Audio \<and> pget (payload y) (asset_key Audio) = attr ?b ''url''"
    using media_node_flushes_then_occupies [OF ty2, where E = demo_env and a = ?b
        and ch = "[]" and s = "new_sender ''7''", THEN conjunct1, rule_format, OF ry]
  proof (elim exE conjE)
    fix y1 t w
    assume yeq: "y = y1\<lparr> assetType := Some t, warnings := warnings y1 @ w,
                    payload := AList.update (asset_key t) (attr ?b ''url'') (payload y1) \<rparr>"
      and t: "''audio'' = ''audio'' \<longrightarrow> t = Audio"
      and py: "pget (payload y) (asset_key t) = attr ?b ''url''"
    from t have "t = Audio" by simp
    with yeq py show ?thesis by simp
  qed
  then have ay: "assetType y = Some Audio"
    and py: "pget (payload y) (asset_key Audio) = attr ?b ''url''" by blast+
  have uy: "attr ?b ''url'' = Str ''no reference''" by (simp add: attr_def)
  from media_node_flushes_then_occupies [OF ty2, where E = demo_env and q = y
      and tq = Audio and ref = "''no reference''",
      THEN conjunct2, THEN conjunct2, THEN conjunct2, THEN conjunct2, THEN conjunct2,
      THEN conjunct2, THEN conjunct2, THEN conjunct1] ay py uy d1
  have d2: "sendBuffer demo_env y = Inl (TypeError ''Invalid URL'')" by simp
  from ry ay d2
  have C: "\<exists>s'. render_node demo_env ?m (new_sender ''7'') = Inr s'
          \<and> assetType s' = Some Audio
          \<and> sendBuffer demo_env s' = Inl (TypeError ''Invalid URL'')"
    by blast
  \<comment> \<open>an audio node does not look at the bytes of its reference\<close>
  let ?E' = "demo_env\<lparr>from_base64 := \<lambda>t. [], fromBuffer := \<lambda>b. None\<rparr>"
  have e1: "sendBuffer ?E' (new_sender ''7'') = sendBuffer demo_env (new_sender ''7'')"
    by (simp add: sendBuffer_def new_sender_def pget_def truthy_def)
  from media_node_flushes_then_occupies [OF ty2, where E = demo_env and E' = ?E'
      and a = ?a and ch = "[]" and s = "new_sender ''7''",
      THEN conjunct2, THEN conjunct2, THEN conjunct2, THEN conjunct2, THEN conjunct2,
      THEN conjunct2, THEN conjunct2, THEN conjunct2] e1
  have D: "render_node ?E' (Segment ''audio'' ?a []) (new_sender ''7'')
       = render_node demo_env (Segment ''audio'' ?a []) (new_sender ''7'')"
    by simp
  show ?thesis by (intro conjI ty pp A B ty2 d1 C D)
qed

end
